theory Spec2Isabelle
  imports Complex_Main "HOL-Library.AList"
begin

section \<open>Values and Python primitives\<close>

text \<open>
  Both consumers receive a raw string and hand it to \<^verbatim>\<open>json.loads\<close>. The value
  that comes back is a Python object built from JSON: \<^verbatim>\<open>None\<close>, a bool, a number,
  a string, a list or a dict. \<open>JNum\<close> is a Python \<^verbatim>\<open>float\<close>, given by its value, and
  \<open>JInt\<close> a Python \<^verbatim>\<open>int\<close>. The floats the code can hold are the binary64 values;
  NaN and the infinities that \<^verbatim>\<open>json.loads\<close> also accepts are outside the model. A dict
  is an association list with distinct keys, in insertion order.
\<close>

datatype json =
    JNull
  | JBool bool
  | JNum real
  | JInt int
  | JStr string
  | JArr "json list"
  | JObj "(string \<times> json) list"

text \<open>
  The Python exceptions that the consumers can meet. \<open>PolarsError\<close> stands for an
  exception that comes out of a call into polars.
\<close>

datatype exn =
    JSONDecodeError | AttributeError | TypeError | ValueError | OverflowError
  | PolarsError

text \<open>\<^verbatim>\<open>d.get(k, default)\<close> on a dict.\<close>

definition dict_get :: "(string \<times> json) list \<Rightarrow> string \<Rightarrow> json \<Rightarrow> json" where
  "dict_get d k dflt = (case map_of d k of None \<Rightarrow> dflt | Some v \<Rightarrow> v)"

text \<open>
  \<^verbatim>\<open>data.get(k, default)\<close> on whatever \<^verbatim>\<open>json.loads\<close> returned: only a dict has the
  method, every other value raises AttributeError.
\<close>

definition py_get :: "json \<Rightarrow> string \<Rightarrow> json \<Rightarrow> exn + json" where
  "py_get data k dflt = (case data of JObj d \<Rightarrow> Inr (dict_get d k dflt) | _ \<Rightarrow> Inl AttributeError)"

text \<open>
  The numeric reading of a value: numbers, and bools (a bool is an int in Python, so
  \<^verbatim>\<open>True >= 150\<close> is a legal comparison). Python compares an int with a float by
  their exact values.
\<close>

fun num_of :: "json \<Rightarrow> real option" where
  "num_of (JNum r) = Some r"
| "num_of (JInt i) = Some (of_int i)"
| "num_of (JBool b) = Some (if b then 1 else 0)"
| "num_of _ = None"

text \<open>Python orders strings by code point; on UTF-8 bytes that is the byte-wise order.\<close>

fun str_lt :: "string \<Rightarrow> string \<Rightarrow> bool" where
  "str_lt [] [] = False"
| "str_lt [] (b # bs) = True"
| "str_lt (a # as) [] = False"
| "str_lt (a # as) (b # bs) = (if a = b then str_lt as bs else (of_char a :: nat) < of_char b)"

text \<open>
  \<^verbatim>\<open>a < b\<close>: defined between two numeric values and between two strings; every other
  pairing raises TypeError. Python also orders two lists, element by element; here that
  comparison raises TypeError too. Two lists can only meet in the window scan of
  \<open>detect_stall\<close>, where the subtraction that follows raises TypeError on any two values
  that are not numeric, so what \<open>detect_stall\<close> returns and logs is the same; no frame
  that \<open>process_message\<close> builds has two rows to compare.
\<close>

definition py_lt :: "json \<Rightarrow> json \<Rightarrow> exn + bool" where
  "py_lt a b =
     (case (num_of a, num_of b) of
        (Some x, Some y) \<Rightarrow> Inr (x < y)
      | _ \<Rightarrow> (case (a, b) of (JStr s, JStr t) \<Rightarrow> Inr (str_lt s t) | _ \<Rightarrow> Inl TypeError))"

definition py_gt :: "json \<Rightarrow> json \<Rightarrow> exn + bool" where
  "py_gt a b = py_lt b a"

text \<open>\<^verbatim>\<open>a >= n\<close> against an int literal: numeric values only.\<close>

definition py_ge_num :: "json \<Rightarrow> real \<Rightarrow> exn + bool" where
  "py_ge_num a n = (case num_of a of Some x \<Rightarrow> Inr (x \<ge> n) | None \<Rightarrow> Inl TypeError)"

section \<open>Float arithmetic\<close>

text \<open>
  A Python \<^verbatim>\<open>float\<close> is an IEEE binary64 number, and an operation on floats returns
  the exact result rounded to the nearest binary64 value, ties to the even significand.
  \<open>float64_round\<close> is that rounding on the reals: with \<open>2 ^ e \<le> \<bar>x\<bar> < 2 ^ (e + 1)\<close> the
  neighbouring values are \<open>2 ^ (e - 52)\<close> apart, and below \<open>2 ^ (- 1022)\<close> (the subnormal
  range) they stay \<open>2 ^ (- 1074)\<close> apart. It is also what \<^verbatim>\<open>json.loads\<close> and
  \<^verbatim>\<open>float(...)\<close> do to a decimal literal.
\<close>

definition pow2 :: "int \<Rightarrow> real" where
  "pow2 k = (if 0 \<le> k then 2 ^ nat k else 1 / 2 ^ nat (- k))"

definition round_half_even :: "real \<Rightarrow> int" where
  "round_half_even y =
     (let f = \<lfloor>y\<rfloor>; d = y - of_int f
      in if d < 1 / 2 then f else if 1 / 2 < d then f + 1 else if even f then f else f + 1)"

definition float64_round :: "real \<Rightarrow> real" where
  "float64_round x =
     (if x = 0 then 0
      else (let e = max \<lfloor>log 2 \<bar>x\<bar>\<rfloor> (- 1022); q = pow2 (e - 52)
            in q * of_int (round_half_even (x / q))))"

text \<open>
  What an arithmetic operation returns: an int (Python ints are unbounded and their
  arithmetic is exact), a finite float, or an infinity when the rounded result leaves the
  binary64 range.
\<close>

datatype number = PyInt int | PyFloat real | PosInf | NegInf

definition to_float64 :: "real \<Rightarrow> number" where
  "to_float64 x =
     (let v = float64_round x
      in if pow2 1024 \<le> v then PosInf else if v \<le> - pow2 1024 then NegInf else PyFloat v)"

text \<open>
  An int that meets a float in an operation is converted to a float first: rounded the
  same way, with OverflowError when it is too large for a float.
\<close>

definition int_to_float :: "int \<Rightarrow> exn + real" where
  "int_to_float i =
     (let v = float64_round (of_int i)
      in if pow2 1024 \<le> \<bar>v\<bar> then Inl OverflowError else Inr v)"

fun as_number :: "json \<Rightarrow> number option" where
  "as_number (JNum r) = Some (PyFloat r)"
| "as_number (JInt i) = Some (PyInt i)"
| "as_number (JBool b) = Some (PyInt (if b then 1 else 0))"
| "as_number _ = None"

text \<open>
  \<^verbatim>\<open>a - b\<close>: numeric values only; strings, lists and dicts have no subtraction. Two ints
  subtract exactly; two floats give the rounded difference; an int and a float subtract
  as floats.
\<close>

definition py_sub :: "json \<Rightarrow> json \<Rightarrow> exn + number" where
  "py_sub a b =
     (case (as_number a, as_number b) of
        (Some (PyInt i), Some (PyInt j)) \<Rightarrow> Inr (PyInt (i - j))
      | (Some (PyFloat x), Some (PyFloat y)) \<Rightarrow> Inr (to_float64 (x - y))
      | (Some (PyInt i), Some (PyFloat y)) \<Rightarrow>
          (case int_to_float i of Inl e \<Rightarrow> Inl e | Inr x \<Rightarrow> Inr (to_float64 (x - y)))
      | (Some (PyFloat x), Some (PyInt j)) \<Rightarrow>
          (case int_to_float j of Inl e \<Rightarrow> Inl e | Inr y \<Rightarrow> Inr (to_float64 (x - y)))
      | _ \<Rightarrow> Inl TypeError)"

text \<open>\<^verbatim>\<open>n <= t\<close> for a result \<open>n\<close> and a finite float \<open>t\<close>: by exact values.\<close>

fun number_le :: "number \<Rightarrow> real \<Rightarrow> bool" where
  "number_le (PyInt i) t = (of_int i \<le> t)"
| "number_le (PyFloat x) t = (x \<le> t)"
| "number_le PosInf t = False"
| "number_le NegInf t = True"

text \<open>The float that a decimal literal of value \<open>x\<close> is read as.\<close>

definition py_float :: "real \<Rightarrow> json" where
  "py_float x = JNum (float64_round x)"

section \<open>Further primitives\<close>

text \<open>
  \<^verbatim>\<open>max(xs)\<close> and \<^verbatim>\<open>min(xs)\<close>: ValueError on an empty sequence; otherwise a left to
  right scan that replaces the candidate when the next item is strictly greater
  (smaller), and raises as soon as one comparison does.
\<close>

fun py_scan :: "(json \<Rightarrow> json \<Rightarrow> exn + bool) \<Rightarrow> json \<Rightarrow> json list \<Rightarrow> exn + json" where
  "py_scan better m [] = Inr m"
| "py_scan better m (x # xs) =
     (case better x m of Inl e \<Rightarrow> Inl e | Inr b \<Rightarrow> py_scan better (if b then x else m) xs)"

definition py_max :: "json list \<Rightarrow> exn + json" where
  "py_max xs = (case xs of [] \<Rightarrow> Inl ValueError | x # rest \<Rightarrow> py_scan py_gt x rest)"

definition py_min :: "json list \<Rightarrow> exn + json" where
  "py_min xs = (case xs of [] \<Rightarrow> Inl ValueError | x # rest \<Rightarrow> py_scan py_lt x rest)"

text \<open>
  What a value is as a dict key: \<^verbatim>\<open>None\<close>, a number (a bool hashes and compares as
  the int it is, a float as the int it equals) or a string. Lists and dicts are
  unhashable: using one as a key raises TypeError.
\<close>

datatype key = KNone | KNum real | KStr string

fun key_of :: "json \<Rightarrow> exn + key" where
  "key_of JNull = Inr KNone"
| "key_of (JBool b) = Inr (KNum (if b then 1 else 0))"
| "key_of (JNum r) = Inr (KNum r)"
| "key_of (JInt i) = Inr (KNum (of_int i))"
| "key_of (JStr s) = Inr (KStr s)"
| "key_of (JArr xs) = Inl TypeError"
| "key_of (JObj d) = Inl TypeError"

text \<open>
  \<^verbatim>\<open>s.lower()\<close>: only a string has the method. The letters A to Z are lowered; every
  other byte is kept.
\<close>

definition lower_char :: "char \<Rightarrow> char" where
  "lower_char c =
     (let n = (of_char c :: nat) in if 65 \<le> n \<and> n \<le> 90 then char_of (n + 32) else c)"

definition py_lower :: "json \<Rightarrow> exn + string" where
  "py_lower v = (case v of JStr s \<Rightarrow> Inr (map lower_char s) | _ \<Rightarrow> Inl AttributeError)"

text \<open>\<^verbatim>\<open>sub in s\<close> on strings.\<close>

primrec py_in :: "string \<Rightarrow> string \<Rightarrow> bool" where
  "py_in sub [] = (sub = [])"
| "py_in sub (c # cs) = (take (length sub) (c # cs) = sub \<or> py_in sub cs)"

section \<open>Logging\<close>

text \<open>
  Every \<^verbatim>\<open>logger\<close> call is an entry of the log: its level and which message it is, with
  the values the message is formatted from. The alerts of both consumers are log entries.
\<close>

datatype level = DEBUG | INFO | WARNING | ERROR

datatype msg =
    Raw_message string
  | Processed_JSON_message json
  | Invalid_message_format string
  | Rolling_window_size int
  | Max_stall_temperature_range real
  | Waiting_for nat int
  | Temperature_range number bool
  | STALL_DETECTED json json int
  | Temperature_dropped json
  | Overcooked json
  | Ready json
  | JSON_decoding_error string
  | Error_processing_message string exn
  | Updated_author_counts "(key \<times> int) list"
  | Frequent_message_alert json
  | Important_author_alert json
  | Message_count_alert json int
  | Keyword_alert json json
  | Expected_a_dictionary json
  | Invalid_JSON_message string
  | Error_processing exn

type_synonym log = "level \<times> msg"

section \<open>The temperature consumer\<close>

text \<open>
  The environment, read once: \<^verbatim>\<open>SMOKER_ROLLING_WINDOW_SIZE\<close> (default 5) and
  \<^verbatim>\<open>SMOKER_STALL_THRESHOLD_F\<close> (default the float 0.2). The two getters log what they
  read.
\<close>

record env =
  SMOKER_ROLLING_WINDOW_SIZE :: int
  SMOKER_STALL_THRESHOLD_F :: real

definition default_env :: env where
  "default_env =
     \<lparr>SMOKER_ROLLING_WINDOW_SIZE = 5, SMOKER_STALL_THRESHOLD_F = float64_round 0.2\<rparr>"

definition get_stall_threshold :: "env \<Rightarrow> log list \<times> real" where
  "get_stall_threshold e =
     (let temp_variation = SMOKER_STALL_THRESHOLD_F e
      in ([(INFO, Max_stall_temperature_range temp_variation)], temp_variation))"

definition get_rolling_window_size :: "env \<Rightarrow> log list \<times> int" where
  "get_rolling_window_size e =
     (let window_size = SMOKER_ROLLING_WINDOW_SIZE e
      in ([(INFO, Rolling_window_size window_size)], window_size))"

text \<open>
  \<^verbatim>\<open>collections.deque(maxlen=n)\<close>: the items, oldest first, and the bound. Appending
  adds on the right and then discards from the left while the bound is exceeded.
\<close>

record deque =
  maxlen :: nat
  items :: "json list"

definition deque_append :: "deque \<Rightarrow> json \<Rightarrow> deque" where
  "deque_append dq x =
     (let xs = items dq @ [x]
      in dq\<lparr>items := (if length xs > maxlen dq then tl xs else xs)\<rparr>)"

text \<open>
  A \<^verbatim>\<open>polars.DataFrame\<close> with the columns \<^verbatim>\<open>timestamp\<close> and \<^verbatim>\<open>temperature\<close>: the
  data types of the two columns, and the rows. A column built from an empty Python list
  has the type Null; a column built from one value has the type polars infers for that
  value, which is Null only for \<^verbatim>\<open>None\<close>. For a list or a dict only the outer kind is
  kept, and building a one-row frame is taken to succeed.
\<close>

datatype dtype = Null | Boolean | Int64 | Float64 | Utf8 | ListType | StructType

fun dtype_of :: "json \<Rightarrow> dtype" where
  "dtype_of JNull = Null"
| "dtype_of (JBool b) = Boolean"
| "dtype_of (JInt i) = Int64"
| "dtype_of (JNum r) = Float64"
| "dtype_of (JStr s) = Utf8"
| "dtype_of (JArr xs) = ListType"
| "dtype_of (JObj d) = StructType"

type_synonym frame = "(json \<times> json) list"

record dataframe =
  dtypes :: "dtype \<times> dtype"
  rows :: frame

text \<open>
  \<^verbatim>\<open>pl.DataFrame({"timestamp": [], "temperature": []})\<close>, the frame \<open>main\<close> creates, and
  \<^verbatim>\<open>pl.DataFrame({"timestamp": [timestamp], "temperature": [temperature]})\<close>, the frame
  \<open>process_message\<close> builds from a reading.
\<close>

definition empty_frame :: dataframe where
  "empty_frame = \<lparr>dtypes = (Null, Null), rows = []\<rparr>"

definition one_row :: "json \<Rightarrow> json \<Rightarrow> dataframe" where
  "one_row timestamp temperature =
     \<lparr>dtypes = (dtype_of timestamp, dtype_of temperature), rows = [(timestamp, temperature)]\<rparr>"

text \<open>
  \<^verbatim>\<open>df.vstack(other)\<close> returns a new frame, the rows of \<open>other\<close> below those of \<open>df\<close>,
  and leaves \<open>df\<close> as it was. It raises when a column of \<open>other\<close> has another data type
  than the column of \<open>df\<close> it goes under.
\<close>

definition vstack :: "dataframe \<Rightarrow> dataframe \<Rightarrow> exn + dataframe" where
  "vstack df other =
     (if dtypes df = dtypes other
      then Inr \<lparr>dtypes = dtypes df, rows = rows df @ rows other\<rparr>
      else Inl PolarsError)"

text \<open>
  \<open>check_temperature_alerts\<close> reads its frame through the rows only (\<^verbatim>\<open>len(df)\<close>,
  \<^verbatim>\<open>df[i, "temperature"]\<close>, \<^verbatim>\<open>df.iter_rows()\<close>), so here it takes the list of rows.
\<close>

text \<open>
  \<open>check_temperature_alerts\<close>, first loop: for \<open>i\<close> from 1, compare row \<open>i\<close> with row
  \<open>i - 1\<close>.
\<close>

fun drop_alerts :: "frame \<Rightarrow> exn + msg list" where
  "drop_alerts (prev # cur # rest) =
     (case py_lt (snd cur) (snd prev) of
        Inl e \<Rightarrow> Inl e
      | Inr dropped \<Rightarrow>
          (case drop_alerts (cur # rest) of
             Inl e \<Rightarrow> Inl e
           | Inr alerts \<Rightarrow> Inr ((if dropped then [Temperature_dropped (fst cur)] else []) @ alerts)))"
| "drop_alerts _ = Inr []"

text \<open>Second loop: the thresholds, row by row, \<^verbatim>\<open>if >= 150 ... elif >= 140\<close>.\<close>

fun threshold_alerts :: "frame \<Rightarrow> exn + msg list" where
  "threshold_alerts [] = Inr []"
| "threshold_alerts ((timestamp, temperature) # rest) =
     (case py_ge_num temperature 150 of
        Inl e \<Rightarrow> Inl e
      | Inr over \<Rightarrow>
          (case (if over then Inr [Overcooked timestamp]
                 else (case py_ge_num temperature 140 of
                         Inl e \<Rightarrow> Inl e
                       | Inr ready \<Rightarrow> Inr (if ready then [Ready timestamp] else []))) of
             Inl e \<Rightarrow> Inl e
           | Inr here \<Rightarrow>
               (case threshold_alerts rest of
                  Inl e \<Rightarrow> Inl e
                | Inr alerts \<Rightarrow> Inr (here @ alerts))))"

text \<open>
  The alerts are collected first and logged at the end, so an exception in either loop
  logs none of them.
\<close>

definition check_temperature_alerts :: "frame \<Rightarrow> exn + log list" where
  "check_temperature_alerts df =
     (case drop_alerts df of
        Inl e \<Rightarrow> Inl e
      | Inr drops \<Rightarrow>
          (case threshold_alerts df of
             Inl e \<Rightarrow> Inl e
           | Inr thresholds \<Rightarrow> Inr (map (Pair INFO) (drops @ thresholds))))"

text \<open>
  \<open>detect_stall\<close> returns what it logged and either the exception it raised or its
  bool. The window size is read from the environment again, not taken from the deque.
\<close>

definition detect_stall :: "env \<Rightarrow> deque \<Rightarrow> log list \<times> (exn + bool)" where
  "detect_stall e rolling_window =
     (let (l1, window_size) = get_rolling_window_size e;
          n = length (items rolling_window)
      in if int n < window_size
         then (l1 @ [(DEBUG, Waiting_for n window_size)], Inr False)
         else (case py_max (items rolling_window) of
                 Inl x \<Rightarrow> (l1, Inl x)
               | Inr mx \<Rightarrow>
                   (case py_min (items rolling_window) of
                      Inl x \<Rightarrow> (l1, Inl x)
                    | Inr mn \<Rightarrow>
                        (case py_sub mx mn of
                           Inl x \<Rightarrow> (l1, Inl x)
                         | Inr temp_range \<Rightarrow>
                             (let (l2, threshold) = get_stall_threshold e;
                                  is_stalled = number_le temp_range threshold
                              in (l1 @ l2 @ [(DEBUG, Temperature_range temp_range is_stalled)],
                                  Inr is_stalled))))))"

text \<open>
  The two objects the caller of \<open>process_message\<close> passes in, as the caller sees them
  after the call. The deque is mutated in place; the frame is only read: the result of
  \<^verbatim>\<open>df.vstack(new_row)\<close> is bound to the local name \<^verbatim>\<open>df\<close>.
\<close>

record objects =
  rolling_window :: deque
  df :: dataframe

text \<open>
  \<open>process_message\<close> of \<^verbatim>\<open>csv_consumer_nickelias.py\<close>. \<open>loads\<close> is \<^verbatim>\<open>json.loads\<close>:
  \<open>None\<close> when it raises JSONDecodeError. Every exception is caught at the end of the
  function and logged; what was mutated and logged before it stays. The reading is
  appended to the deque first, then stacked under the frame, and only then come the stall
  check and the alerts.
\<close>

definition process_message_csv ::
  "env \<Rightarrow> (string \<Rightarrow> json option) \<Rightarrow> string \<Rightarrow> int \<Rightarrow> objects \<Rightarrow> objects \<times> log list" where
  "process_message_csv e loads message window_size st =
     (let l0 = [(DEBUG, Raw_message message)] in
      case loads message of
        None \<Rightarrow> (st, l0 @ [(ERROR, JSON_decoding_error message)])
      | Some data \<Rightarrow>
          (case py_get data ''temperature'' JNull of
             Inl x \<Rightarrow> (st, l0 @ [(ERROR, Error_processing_message message x)])
           | Inr temperature \<Rightarrow>
               (case py_get data ''timestamp'' JNull of
                  Inl x \<Rightarrow> (st, l0 @ [(ERROR, Error_processing_message message x)])
                | Inr timestamp \<Rightarrow>
                    (let l1 = l0 @ [(INFO, Processed_JSON_message data)] in
                     if temperature = JNull \<or> timestamp = JNull
                     then (st, l1 @ [(ERROR, Invalid_message_format message)])
                     else
                       (let st' = st\<lparr>rolling_window := deque_append (rolling_window st) temperature\<rparr>;
                            new_row = one_row timestamp temperature
                        in case vstack (df st) new_row of
                             Inl x \<Rightarrow> (st', l1 @ [(ERROR, Error_processing_message message x)])
                           | Inr df_local \<Rightarrow>
                               (let (l2, stalled) = detect_stall e (rolling_window st')
                                in case stalled of
                                     Inl x \<Rightarrow>
                                       (st', l1 @ l2 @ [(ERROR, Error_processing_message message x)])
                                   | Inr is_stalled \<Rightarrow>
                                       (let l3 = l1 @ l2 @
                                              (if is_stalled
                                               then [(INFO, STALL_DETECTED timestamp temperature
                                                              window_size)]
                                               else [])
                                        in case check_temperature_alerts (rows df_local) of
                                             Inl x \<Rightarrow>
                                               (st', l3 @ [(ERROR, Error_processing_message message x)])
                                           | Inr alerts \<Rightarrow> (st', l3 @ alerts))))))))"

text \<open>
  \<open>main\<close> of the same file: the deque and the empty frame are created once and the same
  two objects are passed to every call. \<^verbatim>\<open>deque(maxlen=n)\<close> raises ValueError for a
  negative \<open>n\<close>, outside every handler. The messages are what the Kafka consumer yields,
  in order; the log is that of the calls of \<open>process_message\<close> (the lines \<open>main\<close> itself
  logs about the topic and the group are left out).
\<close>

fun consume_csv ::
  "env \<Rightarrow> (string \<Rightarrow> json option) \<Rightarrow> int \<Rightarrow> string list \<Rightarrow> objects \<Rightarrow> objects \<times> log list" where
  "consume_csv e loads window_size [] st = (st, [])"
| "consume_csv e loads window_size (message # rest) st =
     (let (st1, l1) = process_message_csv e loads message window_size st;
          (st2, l2) = consume_csv e loads window_size rest st1
      in (st2, l1 @ l2))"

definition main_csv :: "env \<Rightarrow> (string \<Rightarrow> json option) \<Rightarrow> string list \<Rightarrow> exn + objects \<times> log list" where
  "main_csv e loads messages =
     (let window_size = snd (get_rolling_window_size e) in
      if window_size < 0 then Inl ValueError
      else Inr (consume_csv e loads window_size messages
                  \<lparr>rolling_window = \<lparr>maxlen = nat window_size, items = []\<rparr>, df = empty_frame\<rparr>))"

section \<open>The chat consumer\<close>

text \<open>
  The module-level state of \<^verbatim>\<open>json_consumer_nickelias.py\<close>: two
  \<^verbatim>\<open>defaultdict(int)\<close>, as association lists in insertion order, and the constants.
\<close>

record store =
  author_counts :: "(key \<times> int) list"
  last_message_time :: "(key \<times> real) list"

definition empty_store :: store where
  "empty_store = \<lparr>author_counts = [], last_message_time = []\<rparr>"

definition MESSAGE_THRESHOLD :: int where
  "MESSAGE_THRESHOLD = 100"

definition FREQUENT_TIME_FRAME :: real where
  "FREQUENT_TIME_FRAME = 10"

text \<open>\<^verbatim>\<open>counts[k]\<close> on a \<^verbatim>\<open>defaultdict(int)\<close>: 0 for a key not seen yet.\<close>

definition count_of :: "(key \<times> int) list \<Rightarrow> key \<Rightarrow> int" where
  "count_of counts k = (case map_of counts k of None \<Rightarrow> 0 | Some c \<Rightarrow> c)"

text \<open>
  \<open>process_message\<close> of the chat consumer. \<open>current_time\<close> is what \<^verbatim>\<open>time.time()\<close>
  returns during the call. As in the temperature consumer, every exception is caught at
  the end and logged, and what was done before it stays done.
\<close>

definition process_message_json ::
  "(string \<Rightarrow> json option) \<Rightarrow> real \<Rightarrow> string \<Rightarrow> store \<Rightarrow> store \<times> log list" where
  "process_message_json loads current_time message st =
     (let l0 = [(DEBUG, Raw_message message)] in
      case loads message of
        None \<Rightarrow> (st, l0 @ [(ERROR, Invalid_JSON_message message)])
      | Some message_dict \<Rightarrow>
          (let l1 = l0 @ [(INFO, Processed_JSON_message message_dict)] in
           case message_dict of
             JObj d \<Rightarrow>
               (let author = dict_get d ''author'' (JStr ''unknown'');
                    message_content = dict_get d ''message'' (JStr [])
                in case key_of author of
                     Inl x \<Rightarrow> (st, l1 @ [(ERROR, Error_processing x)])
                   | Inr k \<Rightarrow>
                       (let counts = AList.update k (count_of (author_counts st) k + 1) (author_counts st);
                            l2 = l1 @ [(INFO, Updated_author_counts counts)];
                            last_time = (case map_of (last_message_time st) k of None \<Rightarrow> 0 | Some t \<Rightarrow> t);
                            l3 = l2 @ (if current_time - last_time \<le> FREQUENT_TIME_FRAME
                                       then [(WARNING, Frequent_message_alert author)] else []);
                            st' = \<lparr>author_counts = counts,
                                   last_message_time = AList.update k current_time (last_message_time st)\<rparr>
                        in case py_lower author of
                             Inl x \<Rightarrow> (st', l3 @ [(ERROR, Error_processing x)])
                           | Inr lowered \<Rightarrow>
                               (let l4 = l3 @ (if lowered = ''alice''
                                               then [(WARNING, Important_author_alert author)] else []);
                                    n = count_of counts k;
                                    l5 = l4 @ (if n \<ge> MESSAGE_THRESHOLD
                                               then [(WARNING, Message_count_alert author n)] else [])
                                in case py_lower message_content of
                                     Inl x \<Rightarrow> (st', l5 @ [(ERROR, Error_processing x)])
                                   | Inr content \<Rightarrow>
                                       (st', l5 @ (if py_in ''urgent'' content \<or> py_in ''error'' content
                                                   then [(WARNING, Keyword_alert author message_content)]
                                                   else [])))))
           | _ \<Rightarrow> (st, l1 @ [(ERROR, Expected_a_dictionary message_dict)])))"

text \<open>
  The polling loop of \<open>main\<close>: the messages in the order the Kafka consumer yields them,
  each with the clock reading of its call.
\<close>

fun consume_json ::
  "(string \<Rightarrow> json option) \<Rightarrow> (real \<times> string) list \<Rightarrow> store \<Rightarrow> store \<times> log list" where
  "consume_json loads [] st = (st, [])"
| "consume_json loads ((current_time, message) # rest) st =
     (let (st1, l1) = process_message_json loads current_time message st;
          (st2, l2) = consume_json loads rest st1
      in (st2, l1 @ l2))"

section \<open>Alerts\<close>

text \<open>The alert kinds, and which log message is which alert.\<close>

datatype alert =
    TemperatureDrop | ReadyThreshold | OverTemp | StallDetected
  | FrequentMessages | VolumeThreshold | ImportantAuthor | KeywordMatch

fun alert_of :: "log \<Rightarrow> alert option" where
  "alert_of (lv, Temperature_dropped ts) = Some TemperatureDrop"
| "alert_of (lv, Ready ts) = Some ReadyThreshold"
| "alert_of (lv, Overcooked ts) = Some OverTemp"
| "alert_of (lv, STALL_DETECTED ts t n) = Some StallDetected"
| "alert_of (lv, Frequent_message_alert a) = Some FrequentMessages"
| "alert_of (lv, Message_count_alert a n) = Some VolumeThreshold"
| "alert_of (lv, Important_author_alert a) = Some ImportantAuthor"
| "alert_of (lv, Keyword_alert a c) = Some KeywordMatch"
| "alert_of _ = None"

definition fired :: "log list \<Rightarrow> alert list" where
  "fired logs = List.map_filter alert_of logs"


section \<open>Readings and payloads\<close>

text \<open>
  The reading \<open>process_message\<close> of the temperature consumer takes from a payload, when it
  goes on to the window: the payload decodes to a dict and neither \<^verbatim>\<open>temperature\<close> nor
  \<^verbatim>\<open>timestamp\<close> is \<^verbatim>\<open>None\<close> (absent, or JSON null). The result is the pair of the
  timestamp and the temperature.
\<close>

definition reading_of :: "(string \<Rightarrow> json option) \<Rightarrow> string \<Rightarrow> (json \<times> json) option" where
  "reading_of loads message =
     (case loads message of
        Some (JObj d) \<Rightarrow>
          (let temperature = dict_get d ''temperature'' JNull;
               timestamp = dict_get d ''timestamp'' JNull
           in if temperature = JNull \<or> timestamp = JNull then None
              else Some (timestamp, temperature))
      | _ \<Rightarrow> None)"

text \<open>The temperatures of the payloads that get that far, in arrival order.\<close>

definition pushed :: "(string \<Rightarrow> json option) \<Rightarrow> string list \<Rightarrow> json list" where
  "pushed loads messages = map snd (List.map_filter (reading_of loads) messages)"

text \<open>
  The message \<^verbatim>\<open>generate_messages\<close> of \<^verbatim>\<open>csv_producer_nickelias.py\<close> builds from a row
  of the data file, as the dict the consumer decodes.
\<close>

definition producer_message :: "string \<Rightarrow> real \<Rightarrow> json" where
  "producer_message timestamp temperature =
     JObj [(''timestamp'', JStr timestamp), (''temperature'', JNum temperature)]"

section \<open>Facts about the primitives\<close>

lemma py_lt_num [simp]: "py_lt (JNum x) (JNum y) = Inr (x < y)"
  by (simp add: py_lt_def)

lemma py_scan_max_num:
  "py_scan py_gt (JNum m) (map JNum xs) = Inr (JNum (Max (set (m # xs))))"
proof (induction xs arbitrary: m)
  case Nil
  then show ?case by simp
next
  case (Cons x xs)
  have "Max (set (m # x # xs)) = Max (set ((if m < x then x else m) # xs))"
    by (cases xs) (auto simp: max_def Max_insert)
  then show ?case using Cons.IH by (simp add: py_gt_def del: set_simps)
qed

lemma py_scan_min_num:
  "py_scan py_lt (JNum m) (map JNum xs) = Inr (JNum (Min (set (m # xs))))"
proof (induction xs arbitrary: m)
  case Nil
  then show ?case by simp
next
  case (Cons x xs)
  have "Min (set (m # x # xs)) = Min (set ((if x < m then x else m) # xs))"
    by (cases xs) (auto simp: min_def Min_insert)
  then show ?case using Cons.IH by (simp del: set_simps)
qed

lemma py_max_num: "xs \<noteq> [] \<Longrightarrow> py_max (map JNum xs) = Inr (JNum (Max (set xs)))"
  by (cases xs) (simp_all add: py_max_def py_scan_max_num del: set_simps)

lemma py_min_num: "xs \<noteq> [] \<Longrightarrow> py_min (map JNum xs) = Inr (JNum (Min (set xs)))"
  by (cases xs) (simp_all add: py_min_def py_scan_min_num del: set_simps)

lemma py_sub_float: "py_sub (JNum x) (JNum y) = Inr (to_float64 (x - y))"
  by (simp add: py_sub_def)

lemma pow2_powr: "pow2 k = 2 powr (of_int k)"
proof (cases "0 \<le> k")
  case True
  then show ?thesis by (simp add: pow2_def powr_realpow [symmetric])
next
  case False
  then have "2 powr (of_int k) = 1 / (2 powr (of_int (- k)) :: real)"
    by (simp add: powr_minus divide_inverse)
  also have "\<dots> = 1 / 2 ^ nat (- k)"
    using False by (simp add: powr_realpow [symmetric])
  finally show ?thesis using False by (simp add: pow2_def)
qed

lemma float64_round_eval:
  assumes "pow2 e \<le> \<bar>x\<bar>" "\<bar>x\<bar> < pow2 (e + 1)" "- 1022 \<le> e"
  shows "float64_round x = pow2 (e - 52) * of_int (round_half_even (x / pow2 (e - 52)))"
proof -
  have pos: "0 < \<bar>x\<bar>" using assms(1) by (smt (verit) pow2_powr powr_gt_zero)
  have "\<lfloor>log 2 \<bar>x\<bar>\<rfloor> = e"
    using assms(1,2) pos by (subst floor_log_eq_powr_iff) (simp_all add: pow2_powr)
  then show ?thesis using pos assms(3) by (simp add: float64_round_def Let_def max_def)
qed

lemma pow2_1024_ge: "1024 \<le> pow2 1024"
proof -
  have "(2::real) ^ 10 \<le> 2 ^ 1024" by (rule power_increasing) simp_all
  then show ?thesis by (simp add: pow2_def)
qed

lemma to_float64_finite:
  "\<bar>float64_round x\<bar> < 1024 \<Longrightarrow> to_float64 x = PyFloat (float64_round x)"
  using pow2_1024_ge by (auto simp: to_float64_def Let_def abs_if split: if_splits)

lemma to_float64_exact:
  "float64_round x = x \<Longrightarrow> \<bar>x\<bar> < pow2 1024 \<Longrightarrow> to_float64 x = PyFloat x"
  by (auto simp: to_float64_def Let_def abs_if split: if_splits)

lemma float64_round_100: "float64_round 100.0 = 100"
  by (subst float64_round_eval [where e = 6]) (simp_all add: pow2_def round_half_even_def Let_def)

lemma float64_round_101: "float64_round 101.0 = 101"
  by (subst float64_round_eval [where e = 6]) (simp_all add: pow2_def round_half_even_def Let_def)

lemma float64_round_100_1: "float64_round 100.1 = 7043911292184166 / 2 ^ 46"
  by (subst float64_round_eval [where e = 6]) (simp_all add: pow2_def round_half_even_def Let_def)

lemma float64_round_100_05: "float64_round 100.05 = 7040392854975283 / 2 ^ 46"
  by (subst float64_round_eval [where e = 6]) (simp_all add: pow2_def round_half_even_def Let_def)

lemma float64_round_0_2: "float64_round 0.2 = 7205759403792794 / 2 ^ 55"
  by (subst float64_round_eval [where e = "- 3"]) (simp_all add: pow2_def round_half_even_def Let_def)

lemma float64_round_1: "float64_round 1 = 1"
  by (subst float64_round_eval [where e = 0]) (simp_all add: pow2_def round_half_even_def Let_def)

lemma float64_round_4: "float64_round 4 = 4"
  by (subst float64_round_eval [where e = 2]) (simp_all add: pow2_def round_half_even_def Let_def)

lemma float64_round_diff_100_1:
  "float64_round (7036874417766 / 2 ^ 46) = 7036874417766 / 2 ^ 46"
  by (subst float64_round_eval [where e = "- 4"]) (simp_all add: pow2_def round_half_even_def Let_def)

lemma detect_stall_full:
  assumes "xs \<noteq> []" "SMOKER_ROLLING_WINDOW_SIZE e \<le> int (length xs)" "items w = map JNum xs"
  shows "snd (detect_stall e w) =
           Inr (number_le (to_float64 (Max (set xs) - Min (set xs))) (SMOKER_STALL_THRESHOLD_F e))"
  using assms
  by (simp add: detect_stall_def get_rolling_window_size_def get_stall_threshold_def
      py_max_num py_min_num py_sub_float Let_def)

lemma detect_stall_full_exact:
  assumes "xs \<noteq> []" "SMOKER_ROLLING_WINDOW_SIZE e \<le> int (length xs)" "items w = map JNum xs"
    and "Max (set xs) - Min (set xs) = d" "float64_round d = d" "\<bar>d\<bar> < pow2 1024"
  shows "snd (detect_stall e w) = Inr (d \<le> SMOKER_STALL_THRESHOLD_F e)"
  using detect_stall_full [OF assms(1-3)] to_float64_exact [OF assms(5,6)] assms(4) by simp

lemma small_lt_pow2_1024: "\<bar>d\<bar> < 1024 \<Longrightarrow> \<bar>d\<bar> < pow2 1024"
  using pow2_1024_ge by linarith

section \<open>Threshold alerts\<close>


section \<open>Stall detection\<close>

text \<open>
  C4. For a window of floats whose length is the configured (positive) window size,
  \<open>detect_stall\<close> returns True if and only if the maximum minus the minimum of the window
  is at most the stall threshold, where the subtraction is the one of the floats: the
  exact difference rounded to the nearest binary64 value. Where the exact difference is a
  binary64 value itself, the test is on the exact difference. With size 5 and threshold
  0.2 the window read from 100.0, 100.1, 100.05, 100.0, 100.1 is stalled, and with 101.0
  in place of 100.05 it is not.
\<close>

theorem C4_stall_iff_range_within_threshold:
  "(\<forall>e w xs. 0 < SMOKER_ROLLING_WINDOW_SIZE e
        \<and> int (length xs) = SMOKER_ROLLING_WINDOW_SIZE e
        \<and> items w = map JNum xs
      \<longrightarrow> snd (detect_stall e w)
            = Inr (number_le (to_float64 (Max (set xs) - Min (set xs))) (SMOKER_STALL_THRESHOLD_F e)))
   \<and> (\<forall>e w xs. 0 < SMOKER_ROLLING_WINDOW_SIZE e
        \<and> int (length xs) = SMOKER_ROLLING_WINDOW_SIZE e
        \<and> items w = map JNum xs
        \<and> float64_round (Max (set xs) - Min (set xs)) = Max (set xs) - Min (set xs)
        \<and> Max (set xs) - Min (set xs) < pow2 1024
      \<longrightarrow> snd (detect_stall e w) = Inr (Max (set xs) - Min (set xs) \<le> SMOKER_STALL_THRESHOLD_F e))
   \<and> snd (detect_stall \<lparr>SMOKER_ROLLING_WINDOW_SIZE = 5, SMOKER_STALL_THRESHOLD_F = float64_round 0.2\<rparr>
             \<lparr>maxlen = 5, items = map py_float [100.0, 100.1, 100.05, 100.0, 100.1]\<rparr>) = Inr True
   \<and> snd (detect_stall \<lparr>SMOKER_ROLLING_WINDOW_SIZE = 5, SMOKER_STALL_THRESHOLD_F = float64_round 0.2\<rparr>
             \<lparr>maxlen = 5, items = map py_float [100.0, 100.1, 101.0, 100.0, 100.1]\<rparr>) = Inr False"
proof (intro conjI allI impI)
  fix e :: env and w :: deque and xs :: "real list"
  assume h: "0 < SMOKER_ROLLING_WINDOW_SIZE e
        \<and> int (length xs) = SMOKER_ROLLING_WINDOW_SIZE e
        \<and> items w = map JNum xs"
  then have "xs \<noteq> []" by auto
  with h show "snd (detect_stall e w)
            = Inr (number_le (to_float64 (Max (set xs) - Min (set xs))) (SMOKER_STALL_THRESHOLD_F e))"
    by (intro detect_stall_full) simp_all
next
  fix e :: env and w :: deque and xs :: "real list"
  assume h: "0 < SMOKER_ROLLING_WINDOW_SIZE e
        \<and> int (length xs) = SMOKER_ROLLING_WINDOW_SIZE e
        \<and> items w = map JNum xs
        \<and> float64_round (Max (set xs) - Min (set xs)) = Max (set xs) - Min (set xs)
        \<and> Max (set xs) - Min (set xs) < pow2 1024"
  then have ne: "xs \<noteq> []" by auto
  then have "Min (set xs) \<le> Max (set xs)" by simp
  then have "\<bar>Max (set xs) - Min (set xs)\<bar> < pow2 1024" using h by simp
  with h ne show "snd (detect_stall e w) = Inr (Max (set xs) - Min (set xs) \<le> SMOKER_STALL_THRESHOLD_F e)"
    by (intro detect_stall_full_exact [where xs = xs]) simp_all
next
  let ?xs = "[100, 7043911292184166 / 2 ^ 46, 7040392854975283 / 2 ^ 46, 100, 7043911292184166 / 2 ^ 46] :: real list"
  let ?e = "\<lparr>SMOKER_ROLLING_WINDOW_SIZE = 5, SMOKER_STALL_THRESHOLD_F = float64_round 0.2\<rparr>"
  let ?w = "\<lparr>maxlen = 5, items = map py_float [100.0, 100.1, 100.05, 100.0, 100.1]\<rparr>"
  have m: "map py_float [100.0, 100.1, 100.05, 100.0, 100.1] = map JNum ?xs"
    by (simp only: list.map py_float_def float64_round_100 float64_round_100_1 float64_round_100_05)
  have r: "float64_round (7036874417766 / 2 ^ 46) = 7036874417766 / 2 ^ 46"
    by (subst float64_round_eval [where e = "- 4"]) (simp_all add: pow2_def round_half_even_def Let_def)
  have "snd (detect_stall ?e ?w) = Inr (7036874417766 / 2 ^ 46 \<le> SMOKER_STALL_THRESHOLD_F ?e)"
  proof (rule detect_stall_full_exact [where xs = ?xs])
    show "items ?w = map JNum ?xs" using m by simp
    show "float64_round (7036874417766 / 2 ^ 46) = 7036874417766 / 2 ^ 46" by (rule r)
    show "\<bar>7036874417766 / 2 ^ 46 :: real\<bar> < pow2 1024" by (rule small_lt_pow2_1024) simp
  qed simp_all
  moreover have "(7036874417766 / 2 ^ 46 :: real) \<le> float64_round 0.2"
    by (subst float64_round_eval [where e = "- 3"]) (simp_all add: pow2_def round_half_even_def Let_def)
  ultimately show "snd (detect_stall ?e ?w) = Inr True" by simp
next
  let ?xs = "[100, 7043911292184166 / 2 ^ 46, 101, 100, 7043911292184166 / 2 ^ 46] :: real list"
  let ?e = "\<lparr>SMOKER_ROLLING_WINDOW_SIZE = 5, SMOKER_STALL_THRESHOLD_F = float64_round 0.2\<rparr>"
  let ?w = "\<lparr>maxlen = 5, items = map py_float [100.0, 100.1, 101.0, 100.0, 100.1]\<rparr>"
  have m: "map py_float [100.0, 100.1, 101.0, 100.0, 100.1] = map JNum ?xs"
    by (simp only: list.map py_float_def float64_round_100 float64_round_100_1 float64_round_101)
  have "snd (detect_stall ?e ?w) = Inr (1 \<le> SMOKER_STALL_THRESHOLD_F ?e)"
  proof (rule detect_stall_full_exact [where xs = ?xs])
    show "items ?w = map JNum ?xs" using m by simp
    show "float64_round 1 = 1" by (rule float64_round_1)
    show "\<bar>1 :: real\<bar> < pow2 1024" by (rule small_lt_pow2_1024) simp
  qed simp_all
  moreover have "\<not> (1 :: real) \<le> float64_round 0.2"
    by (subst float64_round_eval [where e = "- 3"]) (simp_all add: pow2_def round_half_even_def Let_def)
  ultimately show "snd (detect_stall ?e ?w) = Inr False" by simp
qed

text \<open>The theorem at a window of three readings with threshold 1.\<close>

theorem C4_stall_witness:
  "0 < SMOKER_ROLLING_WINDOW_SIZE \<lparr>SMOKER_ROLLING_WINDOW_SIZE = 3, SMOKER_STALL_THRESHOLD_F = 1\<rparr>
   \<and> int (length [70, 70.5, 71 :: real])
       = SMOKER_ROLLING_WINDOW_SIZE \<lparr>SMOKER_ROLLING_WINDOW_SIZE = 3, SMOKER_STALL_THRESHOLD_F = 1\<rparr>
   \<and> snd (detect_stall \<lparr>SMOKER_ROLLING_WINDOW_SIZE = 3, SMOKER_STALL_THRESHOLD_F = 1\<rparr>
             \<lparr>maxlen = 3, items = map JNum [70, 70.5, 71]\<rparr>) = Inr True"
proof -
  have "to_float64 1 = PyFloat 1"
    by (rule to_float64_exact [OF float64_round_1]) (rule small_lt_pow2_1024, simp)
  then show ?thesis
    using C4_stall_iff_range_within_threshold [THEN conjunct1, rule_format,
      of "\<lparr>SMOKER_ROLLING_WINDOW_SIZE = 3, SMOKER_STALL_THRESHOLD_F = 1\<rparr>" "[70, 70.5, 71]"
         "\<lparr>maxlen = 3, items = map JNum [70, 70.5, 71]\<rparr>"]
    by simp
qed

text \<open>
  The rounding decides at the boundary. With threshold 0.2, the window read from 100.0
  and 100.2 is not stalled: the float 100.2 lies above the decimal, and the difference
  above the float 0.2. The window read from 0.08 and 0.28 is stalled, although the exact
  difference of the two floats is above the threshold: it lies halfway between the
  threshold and the next float, and is rounded to the threshold.
\<close>

lemma stall_rounding_at_the_boundary:
  "snd (detect_stall \<lparr>SMOKER_ROLLING_WINDOW_SIZE = 2, SMOKER_STALL_THRESHOLD_F = float64_round 0.2\<rparr>
          \<lparr>maxlen = 2, items = map py_float [100.0, 100.2]\<rparr>) = Inr False
   \<and> snd (detect_stall \<lparr>SMOKER_ROLLING_WINDOW_SIZE = 2, SMOKER_STALL_THRESHOLD_F = float64_round 0.2\<rparr>
          \<lparr>maxlen = 2, items = map py_float [0.08, 0.28]\<rparr>) = Inr True
   \<and> float64_round 0.2 < float64_round 0.28 - float64_round 0.08"
proof (intro conjI)
  let ?e = "\<lparr>SMOKER_ROLLING_WINDOW_SIZE = 2, SMOKER_STALL_THRESHOLD_F = float64_round 0.2\<rparr>"
  have t: "float64_round 0.2 = 7205759403792794 / 2 ^ 55"
    by (subst float64_round_eval [where e = "- 3"]) (simp_all add: pow2_def round_half_even_def Let_def)
  have a: "float64_round 100.2 = 7050948166601933 / 2 ^ 46"
    by (subst float64_round_eval [where e = 6]) (simp_all add: pow2_def round_half_even_def Let_def)
  have b: "float64_round 0.08 = 5764607523034235 / 2 ^ 56"
    by (subst float64_round_eval [where e = "- 4"]) (simp_all add: pow2_def round_half_even_def Let_def)
  have c: "float64_round 0.28 = 5044031582654956 / 2 ^ 54"
    by (subst float64_round_eval [where e = "- 2"]) (simp_all add: pow2_def round_half_even_def Let_def)
  show "float64_round 0.2 < float64_round 0.28 - float64_round 0.08"
    unfolding t b c by simp
  let ?xs = "[100, 7050948166601933 / 2 ^ 46] :: real list"
  have m1: "map py_float [100.0, 100.2] = map JNum ?xs"
    by (simp only: list.map py_float_def float64_round_100 a)
  have r1: "float64_round (14073748835533 / 2 ^ 46) = 14073748835533 / 2 ^ 46"
    by (subst float64_round_eval [where e = "- 3"]) (simp_all add: pow2_def round_half_even_def Let_def)
  have "snd (detect_stall ?e \<lparr>maxlen = 2, items = map py_float [100.0, 100.2]\<rparr>)
          = Inr (14073748835533 / 2 ^ 46 \<le> SMOKER_STALL_THRESHOLD_F ?e)"
  proof (rule detect_stall_full_exact [where xs = ?xs])
    show "items \<lparr>maxlen = 2, items = map py_float [100.0, 100.2]\<rparr> = map JNum ?xs"
      using m1 by simp
    show "float64_round (14073748835533 / 2 ^ 46) = 14073748835533 / 2 ^ 46" by (rule r1)
    show "\<bar>14073748835533 / 2 ^ 46 :: real\<bar> < pow2 1024" by (rule small_lt_pow2_1024) simp
  qed simp_all
  moreover have "\<not> (14073748835533 / 2 ^ 46 :: real) \<le> float64_round 0.2"
    by (subst float64_round_eval [where e = "- 3"]) (simp_all add: pow2_def round_half_even_def Let_def)
  ultimately show "snd (detect_stall ?e \<lparr>maxlen = 2, items = map py_float [100.0, 100.2]\<rparr>) = Inr False"
    by simp
  let ?ys = "[5764607523034235 / 2 ^ 56, 5044031582654956 / 2 ^ 54] :: real list"
  have m2: "map py_float [0.08, 0.28] = map JNum ?ys"
    by (simp only: list.map py_float_def b c)
  have d: "Max (set ?ys) - Min (set ?ys) = 14411518807585589 / 2 ^ 56"
    by simp
  have r2: "float64_round (14411518807585589 / 2 ^ 56) = 7205759403792794 / 2 ^ 55"
    by (subst float64_round_eval [where e = "- 3"]) (simp_all add: pow2_def round_half_even_def Let_def)
  have f: "to_float64 (Max (set ?ys) - Min (set ?ys)) = PyFloat (7205759403792794 / 2 ^ 55)"
    unfolding d using to_float64_finite [of "14411518807585589 / 2 ^ 56"] unfolding r2 by simp
  have "snd (detect_stall ?e \<lparr>maxlen = 2, items = map py_float [0.08, 0.28]\<rparr>)
          = Inr (number_le (to_float64 (Max (set ?ys) - Min (set ?ys))) (SMOKER_STALL_THRESHOLD_F ?e))"
  proof (rule detect_stall_full [where xs = ?ys])
    show "items \<lparr>maxlen = 2, items = map py_float [0.08, 0.28]\<rparr> = map JNum ?ys"
      using m2 by simp
  qed simp_all
  then have "snd (detect_stall ?e \<lparr>maxlen = 2, items = map py_float [0.08, 0.28]\<rparr>)
          = Inr (number_le (PyFloat (7205759403792794 / 2 ^ 55)) (SMOKER_STALL_THRESHOLD_F ?e))"
    unfolding f .
  moreover have "(7205759403792794 / 2 ^ 55 :: real) \<le> float64_round 0.2"
    by (subst float64_round_eval [where e = "- 3"]) (simp_all add: pow2_def round_half_even_def Let_def)
  ultimately show "snd (detect_stall ?e \<lparr>maxlen = 2, items = map py_float [0.08, 0.28]\<rparr>) = Inr True"
    by simp
qed

text \<open>
  C5, as the code has it. While the window holds fewer values than the configured window
  size, \<open>detect_stall\<close> logs that it is waiting and returns False: the value it also
  returns for a full window that is not stalled. Its result type is a bool; there is no
  separate outcome for a window that is not full yet.
\<close>

theorem C5_short_window_returns_False:
  "int (length (items w)) < SMOKER_ROLLING_WINDOW_SIZE e \<Longrightarrow>
     detect_stall e w =
       ([(INFO, Rolling_window_size (SMOKER_ROLLING_WINDOW_SIZE e)),
         (DEBUG, Waiting_for (length (items w)) (SMOKER_ROLLING_WINDOW_SIZE e))],
        Inr False)"
  by (simp add: detect_stall_def get_rolling_window_size_def Let_def)

theorem C5_short_window_witness:
  "int (length (items \<lparr>maxlen = 5, items = [JNum 100]\<rparr>)) < SMOKER_ROLLING_WINDOW_SIZE default_env
   \<and> detect_stall default_env \<lparr>maxlen = 5, items = [JNum 100]\<rparr> =
       ([(INFO, Rolling_window_size 5), (DEBUG, Waiting_for 1 5)], Inr False)"
  using C5_short_window_returns_False [of "\<lparr>maxlen = 5, items = [JNum 100]\<rparr>" default_env]
  by (simp add: default_env_def)

text \<open>
  The claim as stated fails: with the default environment, a window of one reading and a
  full window of five readings spread over four degrees get the same answer, False.
\<close>

theorem C5_no_distinct_outcome_counterexample:
  "snd (detect_stall default_env \<lparr>maxlen = 5, items = [JNum 100]\<rparr>) = Inr False
   \<and> snd (detect_stall default_env \<lparr>maxlen = 5, items = map JNum [100, 101, 102, 103, 104]\<rparr>)
       = Inr False"
proof
  show "snd (detect_stall default_env \<lparr>maxlen = 5, items = [JNum 100]\<rparr>) = Inr False"
    by (simp add: detect_stall_def get_rolling_window_size_def default_env_def Let_def)
next
  have "snd (detect_stall default_env \<lparr>maxlen = 5, items = map JNum [100, 101, 102, 103, 104]\<rparr>)
          = Inr (4 \<le> SMOKER_STALL_THRESHOLD_F default_env)"
  proof (rule detect_stall_full_exact [where xs = "[100, 101, 102, 103, 104]"])
    show "float64_round 4 = 4" by (rule float64_round_4)
    show "\<bar>4 :: real\<bar> < pow2 1024" by (rule small_lt_pow2_1024) simp
  qed (simp_all add: default_env_def)
  moreover have "\<not> (4 :: real) \<le> float64_round 0.2"
    by (subst float64_round_eval [where e = "- 3"]) (simp_all add: pow2_def round_half_even_def Let_def)
  ultimately show "snd (detect_stall default_env \<lparr>maxlen = 5, items = map JNum [100, 101, 102, 103, 104]\<rparr>)
       = Inr False"
    by (simp add: default_env_def)
qed

section \<open>What one call and one run do to the window and the frame\<close>

lemma dtype_of_Null: "dtype_of v = Null \<longleftrightarrow> v = JNull"
  by (cases v) simp_all

lemma vstack_empty_frame:
  "t \<noteq> JNull \<Longrightarrow> vstack empty_frame (one_row ts t) = Inl PolarsError"
  using dtype_of_Null [of t] by (auto simp: vstack_def empty_frame_def one_row_def)

lemma vstack_rows:
  "vstack f (one_row ts t) = Inr g \<Longrightarrow> rows g = rows f @ [(ts, t)] \<and> dtypes g = dtypes f"
  by (auto simp: vstack_def one_row_def split: if_splits)

lemma process_message_csv_rejected:
  "reading_of loads m = None \<Longrightarrow> fst (process_message_csv e loads m ws st) = st"
  by (auto simp: reading_of_def process_message_csv_def py_get_def Let_def
      split: option.splits json.splits if_splits)

lemma process_message_csv_accepted:
  assumes "reading_of loads m = Some (ts, t)" "loads m = Some data"
  shows "process_message_csv e loads m ws st =
     (st\<lparr>rolling_window := deque_append (rolling_window st) t\<rparr>,
      [(DEBUG, Raw_message m), (INFO, Processed_JSON_message data)]
      @ (case vstack (df st) (one_row ts t) of
           Inl x \<Rightarrow> [(ERROR, Error_processing_message m x)]
         | Inr df_local \<Rightarrow>
             fst (detect_stall e (deque_append (rolling_window st) t))
             @ (case snd (detect_stall e (deque_append (rolling_window st) t)) of
                  Inl x \<Rightarrow> [(ERROR, Error_processing_message m x)]
                | Inr is_stalled \<Rightarrow>
                    (if is_stalled then [(INFO, STALL_DETECTED ts t ws)] else [])
                    @ (case check_temperature_alerts (rows df_local) of
                         Inl x \<Rightarrow> [(ERROR, Error_processing_message m x)]
                       | Inr alerts \<Rightarrow> alerts))))"
  using assms
  by (auto simp: reading_of_def process_message_csv_def py_get_def Let_def
      split: option.splits json.splits if_splits sum.splits prod.splits)

lemma reading_of_loads:
  "reading_of loads m = Some r \<Longrightarrow> \<exists>data. loads m = Some data"
  by (auto simp: reading_of_def split: option.splits)

lemma reading_of_not_null:
  "reading_of loads m = Some (ts, t) \<Longrightarrow> t \<noteq> JNull \<and> ts \<noteq> JNull"
  by (auto simp: reading_of_def Let_def split: option.splits json.splits if_splits)

lemma process_message_csv_window:
  "rolling_window (fst (process_message_csv e loads m ws st)) =
     (case reading_of loads m of
        None \<Rightarrow> rolling_window st
      | Some r \<Rightarrow> deque_append (rolling_window st) (snd r))"
proof (cases "reading_of loads m")
  case None
  then show ?thesis by (simp add: process_message_csv_rejected)
next
  case (Some r)
  obtain ts t where r: "r = (ts, t)" by (cases r)
  from Some obtain data where "loads m = Some data"
    using reading_of_loads by blast
  with Some r show ?thesis by (simp add: process_message_csv_accepted)
qed

lemma process_message_csv_df: "df (fst (process_message_csv e loads m ws st)) = df st"
proof (cases "reading_of loads m")
  case None
  then show ?thesis by (simp add: process_message_csv_rejected)
next
  case (Some r)
  obtain ts t where r: "r = (ts, t)" by (cases r)
  from Some obtain data where "loads m = Some data"
    using reading_of_loads by blast
  with Some r show ?thesis by (simp add: process_message_csv_accepted)
qed

lemma process_message_csv_on_empty_frame:
  assumes "reading_of loads m = Some (ts, t)" "loads m = Some data" "df st = empty_frame"
  shows "process_message_csv e loads m ws st =
     (st\<lparr>rolling_window := deque_append (rolling_window st) t\<rparr>,
      [(DEBUG, Raw_message m), (INFO, Processed_JSON_message data),
       (ERROR, Error_processing_message m PolarsError)])"
  using reading_of_not_null [OF assms(1)] assms(3)
  by (simp add: process_message_csv_accepted [OF assms(1,2)] vstack_empty_frame)

lemma consume_csv_Cons:
  "consume_csv e loads ws (m # ms) st =
     (fst (consume_csv e loads ws ms (fst (process_message_csv e loads m ws st))),
      snd (process_message_csv e loads m ws st)
      @ snd (consume_csv e loads ws ms (fst (process_message_csv e loads m ws st))))"
  by (simp add: case_prod_beta)

lemma consume_csv_df: "df (fst (consume_csv e loads ws ms st)) = df st"
  by (induction ms arbitrary: st) (simp_all add: consume_csv_Cons process_message_csv_df del: consume_csv.simps(2))

lemma consume_csv_window:
  "rolling_window (fst (consume_csv e loads ws ms st)) =
     foldl deque_append (rolling_window st) (pushed loads ms)"
proof (induction ms arbitrary: st)
  case Nil
  then show ?case by (simp add: pushed_def List.map_filter_simps)
next
  case (Cons m ms)
  show ?case
    by (cases "reading_of loads m")
      (simp_all add: consume_csv_Cons Cons.IH process_message_csv_window pushed_def
        List.map_filter_simps del: consume_csv.simps(2))
qed

lemma foldl_deque_append_maxlen: "maxlen (foldl deque_append dq vs) = maxlen dq"
  by (induction vs arbitrary: dq) (simp_all add: deque_append_def Let_def)

lemma foldl_deque_append_items:
  "length (items dq) \<le> maxlen dq \<Longrightarrow>
   items (foldl deque_append dq vs) =
     drop (length (items dq @ vs) - maxlen dq) (items dq @ vs)"
proof (induction vs arbitrary: dq)
  case Nil
  then show ?case by simp
next
  case (Cons v vs)
  let ?dq = "deque_append dq v"
  have m: "maxlen ?dq = maxlen dq" by (simp add: deque_append_def Let_def)
  show ?case
  proof (cases "length (items dq) = maxlen dq")
    case True
    define ys where "ys = items dq @ v # vs"
    have i: "items ?dq = tl (items dq @ [v])"
      using True by (simp add: deque_append_def Let_def)
    have l: "length (items ?dq) \<le> maxlen ?dq" using True m i by simp
    have a: "items ?dq @ vs = drop 1 ys"
      unfolding i ys_def by (cases "items dq") (simp_all add: drop_Suc)
    have n: "length ys = maxlen dq + length vs + 1"
      unfolding ys_def using True by simp
    have "items (foldl deque_append ?dq vs) = drop (length (drop 1 ys) - maxlen dq) (drop 1 ys)"
      using Cons.IH [OF l] unfolding m a .
    also have "\<dots> = drop (length vs) (drop 1 ys)" using n by simp
    also have "\<dots> = drop (length ys - maxlen dq) ys" using n by simp
    finally show ?thesis by (simp add: ys_def)
  next
    case False
    with Cons.prems have lt: "length (items dq) < maxlen dq" by simp
    then have i: "items ?dq = items dq @ [v]" by (simp add: deque_append_def Let_def)
    then have l: "length (items ?dq) \<le> maxlen ?dq" using lt m by simp
    show ?thesis using Cons.IH [OF l] m i by simp
  qed
qed

lemma main_csv_ok:
  "0 \<le> SMOKER_ROLLING_WINDOW_SIZE e \<Longrightarrow>
   main_csv e loads ms =
     Inr (consume_csv e loads (SMOKER_ROLLING_WINDOW_SIZE e) ms
           \<lparr>rolling_window = \<lparr>maxlen = nat (SMOKER_ROLLING_WINDOW_SIZE e), items = []\<rparr>,
            df = empty_frame\<rparr>)"
  by (simp add: main_csv_def get_rolling_window_size_def Let_def)

lemma fired_append: "fired (xs @ ys) = fired xs @ fired ys"
  by (simp add: fired_def List.map_filter_def)

lemma fired_Cons: "fired (x # xs) = (case alert_of x of None \<Rightarrow> fired xs | Some a \<Rightarrow> a # fired xs)"
  by (cases "alert_of x") (simp_all add: fired_def List.map_filter_simps)

lemma fired_Nil: "fired [] = []"
  by (simp add: fired_def List.map_filter_simps)

lemma fired_detect_stall: "fired (fst (detect_stall e w)) = []"
  by (simp add: detect_stall_def get_rolling_window_size_def get_stall_threshold_def Let_def
      fired_Cons fired_Nil fired_append split: sum.splits)

lemma fired_rejected:
  "reading_of loads m = None \<Longrightarrow> fired (snd (process_message_csv e loads m ws st)) = []"
  by (auto simp: reading_of_def process_message_csv_def py_get_def Let_def fired_Cons fired_Nil
      split: option.splits json.splits if_splits)

lemma single_row_no_drop:
  "check_temperature_alerts [(ts, t)] = Inr alerts \<Longrightarrow> TemperatureDrop \<notin> set (fired alerts)"
  by (auto simp: check_temperature_alerts_def fired_Cons fired_Nil split: sum.splits if_splits)

lemma process_message_csv_no_drop:
  assumes "rows (df st) = []"
  shows "TemperatureDrop \<notin> set (fired (snd (process_message_csv e loads m ws st)))"
proof (cases "reading_of loads m")
  case None
  then show ?thesis by (simp add: fired_rejected)
next
  case (Some r)
  obtain ts t where r: "r = (ts, t)" by (cases r)
  from Some obtain data where d: "loads m = Some data"
    using reading_of_loads by blast
  show ?thesis
    using assms single_row_no_drop [of ts t] vstack_rows [of "df st" ts t]
    by (auto simp: process_message_csv_accepted [OF Some [unfolded r] d] fired_append fired_Cons
        fired_Nil fired_detect_stall split: sum.splits)
qed

lemma consume_csv_no_drop:
  "rows (df st) = [] \<Longrightarrow> TemperatureDrop \<notin> set (fired (snd (consume_csv e loads ws ms st)))"
proof (induction ms arbitrary: st)
  case Nil
  then show ?case by (simp add: fired_Nil)
next
  case (Cons m ms)
  have "rows (df (fst (process_message_csv e loads m ws st))) = []"
    using Cons.prems by (simp add: process_message_csv_df)
  then show ?case
    using Cons.IH Cons.prems
    by (simp add: consume_csv_Cons fired_append process_message_csv_no_drop del: consume_csv.simps(2))
qed

lemma malformed_payload_csv:
  "loads bad = None \<Longrightarrow>
     process_message_csv e loads bad ws st
       = (st, [(DEBUG, Raw_message bad), (ERROR, JSON_decoding_error bad)])"
  by (simp add: process_message_csv_def)

section \<open>Temperature drops\<close>

text \<open>
  C1. The claim is that a drop alert fires on an event exactly when the previous reading
  of the stream was higher, so that 70.0, 65.0, 80.0 gives one alert, on the second
  reading. The code does not do this. \<open>check_temperature_alerts\<close> compares consecutive rows
  of the frame it is given, and on the frame of the three readings it reports the drop at
  the second. But \<open>process_message\<close> never hands it such a frame: the stacked frame is
  bound to a local name only, so the frame of \<open>main\<close> never grows, and on that frame the
  stacking itself raises before the alerts are reached. No run of \<open>main\<close> ever logs a drop
  alert, and the three readings log no alert at all.
\<close>

theorem C1_drop_alert_never_fires:
  "(case main_csv e loads ms of
      Inl x \<Rightarrow> True
    | Inr (st, logs) \<Rightarrow> TemperatureDrop \<notin> set (fired logs))
   \<and> map_sum id (\<lambda>(st, logs). fired logs)
        (main_csv default_env
           (map_of [(''r1'', producer_message ''t1'' 70), (''r2'', producer_message ''t2'' 65),
                    (''r3'', producer_message ''t3'' 80)])
           [''r1'', ''r2'', ''r3'']) = Inr []
   \<and> check_temperature_alerts [(JStr ''t1'', JNum 70), (JStr ''t2'', JNum 65), (JStr ''t3'', JNum 80)]
       = Inr [(INFO, Temperature_dropped (JStr ''t2''))]"
proof (intro conjI)
  show "case main_csv e loads ms of
      Inl x \<Rightarrow> True
    | Inr (st, logs) \<Rightarrow> TemperatureDrop \<notin> set (fired logs)"
    using consume_csv_no_drop [of "\<lparr>rolling_window = \<lparr>maxlen = nat (SMOKER_ROLLING_WINDOW_SIZE e), items = []\<rparr>, df = empty_frame\<rparr>" e loads "SMOKER_ROLLING_WINDOW_SIZE e" ms]
    by (simp add: main_csv_def get_rolling_window_size_def Let_def case_prod_beta empty_frame_def)
next
  show "map_sum id (\<lambda>(st, logs). fired logs)
        (main_csv default_env
           (map_of [(''r1'', producer_message ''t1'' 70), (''r2'', producer_message ''t2'' 65),
                    (''r3'', producer_message ''t3'' 80)])
           [''r1'', ''r2'', ''r3'']) = Inr []"
    by (simp add: main_csv_def get_rolling_window_size_def process_message_csv_def
        producer_message_def py_get_def dict_get_def deque_append_def vstack_def one_row_def
        empty_frame_def default_env_def Let_def fired_Cons fired_Nil)
next
  show "check_temperature_alerts [(JStr ''t1'', JNum 70), (JStr ''t2'', JNum 65), (JStr ''t3'', JNum 80)]
       = Inr [(INFO, Temperature_dropped (JStr ''t2''))]"
    by (simp add: check_temperature_alerts_def py_ge_num_def)
qed

section \<open>The rolling window\<close>

text \<open>
  C6. With a window size that \<open>main\<close> accepts, after any run the deque holds at most
  that many values: the last ones pushed, in arrival order. After \<open>capacity + k\<close> pushes
  it holds exactly \<open>capacity\<close> values, the pushed ones without the first \<open>k\<close>. One push
  onto a deque with a positive bound evicts the oldest value exactly when the deque is at
  its bound, and otherwise only adds the new value.
\<close>

theorem C6_window_holds_last_capacity_values:
  "(\<forall>e loads ms. 0 \<le> SMOKER_ROLLING_WINDOW_SIZE e \<longrightarrow>
      (\<exists>st logs. main_csv e loads ms = Inr (st, logs)
         \<and> maxlen (rolling_window st) = nat (SMOKER_ROLLING_WINDOW_SIZE e)
         \<and> length (items (rolling_window st)) \<le> nat (SMOKER_ROLLING_WINDOW_SIZE e)
         \<and> items (rolling_window st) =
             drop (length (pushed loads ms) - nat (SMOKER_ROLLING_WINDOW_SIZE e)) (pushed loads ms)))
   \<and> (\<forall>e loads ms k. 0 \<le> SMOKER_ROLLING_WINDOW_SIZE e
          \<and> length (pushed loads ms) = nat (SMOKER_ROLLING_WINDOW_SIZE e) + k \<longrightarrow>
      (\<exists>st logs. main_csv e loads ms = Inr (st, logs)
         \<and> length (items (rolling_window st)) = nat (SMOKER_ROLLING_WINDOW_SIZE e)
         \<and> items (rolling_window st) = drop k (pushed loads ms)))
   \<and> (\<forall>dq x. 0 < maxlen dq \<and> length (items dq) \<le> maxlen dq \<longrightarrow>
          items (deque_append dq x) =
            (if length (items dq) = maxlen dq then tl (items dq) @ [x] else items dq @ [x]))"
proof (intro conjI allI impI)
  fix e :: env and loads :: "string \<Rightarrow> json option" and ms :: "string list"
  assume h: "0 \<le> SMOKER_ROLLING_WINDOW_SIZE e"
  let ?n = "nat (SMOKER_ROLLING_WINDOW_SIZE e)"
  let ?st0 = "\<lparr>rolling_window = \<lparr>maxlen = ?n, items = []\<rparr>, df = empty_frame\<rparr>"
  let ?r = "consume_csv e loads (SMOKER_ROLLING_WINDOW_SIZE e) ms ?st0"
  have w: "rolling_window (fst ?r) = foldl deque_append \<lparr>maxlen = ?n, items = []\<rparr> (pushed loads ms)"
    by (simp add: consume_csv_window)
  have i: "items (rolling_window (fst ?r)) = drop (length (pushed loads ms) - ?n) (pushed loads ms)"
    unfolding w by (subst foldl_deque_append_items) simp_all
  have m: "maxlen (rolling_window (fst ?r)) = ?n"
    unfolding w by (simp add: foldl_deque_append_maxlen)
  have "main_csv e loads ms = Inr (fst ?r, snd ?r)"
    using h by (simp add: main_csv_ok)
  then show "\<exists>st logs. main_csv e loads ms = Inr (st, logs)
         \<and> maxlen (rolling_window st) = ?n
         \<and> length (items (rolling_window st)) \<le> ?n
         \<and> items (rolling_window st) = drop (length (pushed loads ms) - ?n) (pushed loads ms)"
    using i m by (intro exI [of _ "fst ?r"] exI [of _ "snd ?r"]) simp
next
  fix e :: env and loads :: "string \<Rightarrow> json option" and ms :: "string list" and k :: nat
  assume h: "0 \<le> SMOKER_ROLLING_WINDOW_SIZE e
          \<and> length (pushed loads ms) = nat (SMOKER_ROLLING_WINDOW_SIZE e) + k"
  let ?n = "nat (SMOKER_ROLLING_WINDOW_SIZE e)"
  let ?st0 = "\<lparr>rolling_window = \<lparr>maxlen = ?n, items = []\<rparr>, df = empty_frame\<rparr>"
  let ?r = "consume_csv e loads (SMOKER_ROLLING_WINDOW_SIZE e) ms ?st0"
  have w: "rolling_window (fst ?r) = foldl deque_append \<lparr>maxlen = ?n, items = []\<rparr> (pushed loads ms)"
    by (simp add: consume_csv_window)
  have i: "items (rolling_window (fst ?r)) = drop k (pushed loads ms)"
    unfolding w using h by (subst foldl_deque_append_items) simp_all
  have "main_csv e loads ms = Inr (fst ?r, snd ?r)"
    using h by (simp add: main_csv_ok)
  then show "\<exists>st logs. main_csv e loads ms = Inr (st, logs)
         \<and> length (items (rolling_window st)) = ?n
         \<and> items (rolling_window st) = drop k (pushed loads ms)"
    using i h by (intro exI [of _ "fst ?r"] exI [of _ "snd ?r"]) simp
next
  fix dq :: deque and x
  assume "0 < maxlen dq \<and> length (items dq) \<le> maxlen dq"
  then show "items (deque_append dq x) =
            (if length (items dq) = maxlen dq then tl (items dq) @ [x] else items dq @ [x])"
    by (cases "items dq") (auto simp: deque_append_def Let_def)
qed

text \<open>Three readings into a window of two: the first is evicted.\<close>

theorem C6_window_witness:
  "0 \<le> SMOKER_ROLLING_WINDOW_SIZE \<lparr>SMOKER_ROLLING_WINDOW_SIZE = 2, SMOKER_STALL_THRESHOLD_F = 0.2\<rparr>
   \<and> length (pushed (map_of [(''r1'', producer_message ''t1'' 70), (''r2'', producer_message ''t2'' 65),
                               (''r3'', producer_message ''t3'' 80)]) [''r1'', ''r2'', ''r3''])
       = nat (SMOKER_ROLLING_WINDOW_SIZE \<lparr>SMOKER_ROLLING_WINDOW_SIZE = 2, SMOKER_STALL_THRESHOLD_F = 0.2\<rparr>) + 1
   \<and> (\<exists>st logs.
         main_csv \<lparr>SMOKER_ROLLING_WINDOW_SIZE = 2, SMOKER_STALL_THRESHOLD_F = 0.2\<rparr>
           (map_of [(''r1'', producer_message ''t1'' 70), (''r2'', producer_message ''t2'' 65),
                    (''r3'', producer_message ''t3'' 80)]) [''r1'', ''r2'', ''r3''] = Inr (st, logs)
         \<and> length (items (rolling_window st)) = 2
         \<and> items (rolling_window st) = [JNum 65, JNum 80])"
proof -
  let ?e = "\<lparr>SMOKER_ROLLING_WINDOW_SIZE = 2, SMOKER_STALL_THRESHOLD_F = 0.2\<rparr>"
  let ?loads = "map_of [(''r1'', producer_message ''t1'' 70), (''r2'', producer_message ''t2'' 65),
                        (''r3'', producer_message ''t3'' 80)]"
  have p: "pushed ?loads [''r1'', ''r2'', ''r3''] = [JNum 70, JNum 65, JNum 80]"
    by (simp add: pushed_def reading_of_def producer_message_def dict_get_def List.map_filter_simps)
  show ?thesis
    using C6_window_holds_last_capacity_values
      [THEN conjunct2, THEN conjunct1, rule_format, of ?e ?loads "[''r1'', ''r2'', ''r3'']" 1]
    unfolding p by simp
qed

section \<open>The frame of the caller\<close>

text \<open>
  C10. \<open>process_message\<close> of the temperature consumer leaves the frame it is passed as it
  was, so over any sequence of calls, and over any run of \<open>main\<close>, the caller's frame
  stays the empty one it started as. For a caller's frame without rows, an accepted
  reading either fails to stack, and the call ends with that error, or reaches
  \<open>check_temperature_alerts\<close> with the frame of that one reading. On the frame \<open>main\<close>
  creates it is always the first: the columns of that frame have the type Null, so every
  accepted reading ends in the error and \<open>check_temperature_alerts\<close> is not reached.
\<close>

theorem C10_caller_frame_unchanged:
  "(\<forall>e loads m ws st. df (fst (process_message_csv e loads m ws st)) = df st)
   \<and> (\<forall>e loads ws ms st. df (fst (consume_csv e loads ws ms st)) = df st)
   \<and> (\<forall>e loads ms.
         case main_csv e loads ms of Inl x \<Rightarrow> True | Inr (st, logs) \<Rightarrow> df st = empty_frame)
   \<and> (\<forall>e loads m ws st d ts t.
         rows (df st) = [] \<and> loads m = Some (JObj d)
         \<and> dict_get d ''temperature'' JNull = t \<and> t \<noteq> JNull
         \<and> dict_get d ''timestamp'' JNull = ts \<and> ts \<noteq> JNull
       \<longrightarrow> snd (process_message_csv e loads m ws st) =
             [(DEBUG, Raw_message m), (INFO, Processed_JSON_message (JObj d))]
             @ (case vstack (df st) (one_row ts t) of
                  Inl x \<Rightarrow> [(ERROR, Error_processing_message m x)]
                | Inr df_local \<Rightarrow>
                    fst (detect_stall e (deque_append (rolling_window st) t))
                    @ (case snd (detect_stall e (deque_append (rolling_window st) t)) of
                         Inl x \<Rightarrow> [(ERROR, Error_processing_message m x)]
                       | Inr is_stalled \<Rightarrow>
                           (if is_stalled then [(INFO, STALL_DETECTED ts t ws)] else [])
                           @ (case check_temperature_alerts [(ts, t)] of
                                Inl x \<Rightarrow> [(ERROR, Error_processing_message m x)]
                              | Inr alerts \<Rightarrow> alerts))))
   \<and> (\<forall>e loads m ws st d.
         df st = empty_frame \<and> loads m = Some (JObj d)
         \<and> dict_get d ''temperature'' JNull \<noteq> JNull
         \<and> dict_get d ''timestamp'' JNull \<noteq> JNull
       \<longrightarrow> snd (process_message_csv e loads m ws st) =
             [(DEBUG, Raw_message m), (INFO, Processed_JSON_message (JObj d)),
              (ERROR, Error_processing_message m PolarsError)])"
proof (intro conjI allI impI)
  fix e loads m ws st
  show "df (fst (process_message_csv e loads m ws st)) = df st"
    by (rule process_message_csv_df)
next
  fix e loads ws ms st
  show "df (fst (consume_csv e loads ws ms st)) = df st"
    by (rule consume_csv_df)
next
  fix e :: env and loads :: "string \<Rightarrow> json option" and ms :: "string list"
  show "case main_csv e loads ms of Inl x \<Rightarrow> True | Inr (st, logs) \<Rightarrow> df st = empty_frame"
    using consume_csv_df [of e loads "SMOKER_ROLLING_WINDOW_SIZE e" ms
        "\<lparr>rolling_window = \<lparr>maxlen = nat (SMOKER_ROLLING_WINDOW_SIZE e), items = []\<rparr>, df = empty_frame\<rparr>"]
    by (simp add: main_csv_def get_rolling_window_size_def Let_def case_prod_beta)
next
  fix e :: env and loads :: "string \<Rightarrow> json option" and m :: string and ws :: int
    and st :: objects and d :: "(string \<times> json) list" and ts t :: json
  assume h: "rows (df st) = [] \<and> loads m = Some (JObj d)
         \<and> dict_get d ''temperature'' JNull = t \<and> t \<noteq> JNull
         \<and> dict_get d ''timestamp'' JNull = ts \<and> ts \<noteq> JNull"
  then have r: "reading_of loads m = Some (ts, t)"
    by (auto simp: reading_of_def Let_def)
  from h have l: "loads m = Some (JObj d)" by simp
  show "snd (process_message_csv e loads m ws st) =
             [(DEBUG, Raw_message m), (INFO, Processed_JSON_message (JObj d))]
             @ (case vstack (df st) (one_row ts t) of
                  Inl x \<Rightarrow> [(ERROR, Error_processing_message m x)]
                | Inr df_local \<Rightarrow>
                    fst (detect_stall e (deque_append (rolling_window st) t))
                    @ (case snd (detect_stall e (deque_append (rolling_window st) t)) of
                         Inl x \<Rightarrow> [(ERROR, Error_processing_message m x)]
                       | Inr is_stalled \<Rightarrow>
                           (if is_stalled then [(INFO, STALL_DETECTED ts t ws)] else [])
                           @ (case check_temperature_alerts [(ts, t)] of
                                Inl x \<Rightarrow> [(ERROR, Error_processing_message m x)]
                              | Inr alerts \<Rightarrow> alerts)))"
    using h vstack_rows [of "df st" ts t]
    by (auto simp: process_message_csv_accepted [where loads = loads and m = m, OF r l]
        split: sum.splits)
next
  fix e :: env and loads :: "string \<Rightarrow> json option" and m :: string and ws :: int
    and st :: objects and d :: "(string \<times> json) list"
  assume h: "df st = empty_frame \<and> loads m = Some (JObj d)
         \<and> dict_get d ''temperature'' JNull \<noteq> JNull
         \<and> dict_get d ''timestamp'' JNull \<noteq> JNull"
  then have r: "reading_of loads m
      = Some (dict_get d ''timestamp'' JNull, dict_get d ''temperature'' JNull)"
    by (auto simp: reading_of_def Let_def)
  from h have l: "loads m = Some (JObj d)" and f: "df st = empty_frame" by simp_all
  show "snd (process_message_csv e loads m ws st) =
             [(DEBUG, Raw_message m), (INFO, Processed_JSON_message (JObj d)),
              (ERROR, Error_processing_message m PolarsError)]"
    by (simp add: process_message_csv_on_empty_frame [where loads = loads and m = m, OF r l f])
qed

text \<open>A reading of 151 degrees on the frame of \<open>main\<close>.\<close>

theorem C10_caller_frame_witness:
  "df \<lparr>rolling_window = \<lparr>maxlen = 5, items = []\<rparr>, df = empty_frame\<rparr> = empty_frame
   \<and> map_of [(''r1'', producer_message ''t1'' 151)] ''r1''
       = Some (JObj [(''timestamp'', JStr ''t1''), (''temperature'', JNum 151)])
   \<and> snd (process_message_csv default_env (map_of [(''r1'', producer_message ''t1'' 151)]) ''r1'' 5
            \<lparr>rolling_window = \<lparr>maxlen = 5, items = []\<rparr>, df = empty_frame\<rparr>) =
       [(DEBUG, Raw_message ''r1''),
        (INFO, Processed_JSON_message (JObj [(''timestamp'', JStr ''t1''), (''temperature'', JNum 151)])),
        (ERROR, Error_processing_message ''r1'' PolarsError)]"
  using C10_caller_frame_unchanged
    [THEN conjunct2, THEN conjunct2, THEN conjunct2, THEN conjunct2, rule_format,
      of "\<lparr>rolling_window = \<lparr>maxlen = 5, items = []\<rparr>, df = empty_frame\<rparr>"
         "map_of [(''r1'', producer_message ''t1'' 151)]" "''r1''"
         "[(''timestamp'', JStr ''t1''), (''temperature'', JNum 151)]" default_env 5]
  by (simp add: producer_message_def dict_get_def)

section \<open>What one call does to the store of the chat consumer\<close>

lemma count_of_update:
  "count_of (AList.update k v al) k' = (if k' = k then v else count_of al k')"
  by (simp add: count_of_def update_conv')

lemma process_message_json_state:
  assumes "loads m = Some (JObj d)" "key_of (dict_get d ''author'' (JStr ''unknown'')) = Inr k"
  shows "fst (process_message_json loads now m st) =
           \<lparr>author_counts = AList.update k (count_of (author_counts st) k + 1) (author_counts st),
            last_message_time = AList.update k now (last_message_time st)\<rparr>"
  using assms
  by (simp add: process_message_json_def Let_def split: sum.splits)

lemma process_message_json_fired:
  assumes "loads m = Some (JObj d)" "key_of (dict_get d ''author'' (JStr ''unknown'')) = Inr k"
  shows "fired (snd (process_message_json loads now m st)) =
           (if now - (case map_of (last_message_time st) k of None \<Rightarrow> 0 | Some t \<Rightarrow> t)
                 \<le> FREQUENT_TIME_FRAME
            then [FrequentMessages] else [])
           @ (case py_lower (dict_get d ''author'' (JStr ''unknown'')) of
                Inl x \<Rightarrow> []
              | Inr lowered \<Rightarrow>
                  (if lowered = ''alice'' then [ImportantAuthor] else [])
                  @ (if MESSAGE_THRESHOLD \<le> count_of (author_counts st) k + 1
                     then [VolumeThreshold] else [])
                  @ (case py_lower (dict_get d ''message'' (JStr [])) of
                       Inl x \<Rightarrow> []
                     | Inr content \<Rightarrow>
                         (if py_in ''urgent'' content \<or> py_in ''error'' content
                          then [KeywordMatch] else [])))"
  using assms
  by (simp add: process_message_json_def Let_def fired_append fired_Cons fired_Nil
      count_of_update split: sum.splits)

lemma process_message_json_unchanged:
  assumes "\<not> (\<exists>d k. loads m = Some (JObj d) \<and> key_of (dict_get d ''author'' (JStr ''unknown'')) = Inr k)"
  shows "fst (process_message_json loads now m st) = st"
  using assms
  by (auto simp: process_message_json_def Let_def split: option.splits json.splits sum.splits)

lemma process_message_json_count_mono:
  "count_of (author_counts st) k' \<le> count_of (author_counts (fst (process_message_json loads now m st))) k'"
proof (cases "\<exists>d k. loads m = Some (JObj d) \<and> key_of (dict_get d ''author'' (JStr ''unknown'')) = Inr k")
  case True
  then obtain d k where "loads m = Some (JObj d)" "key_of (dict_get d ''author'' (JStr ''unknown'')) = Inr k"
    by blast
  then show ?thesis by (simp add: process_message_json_state count_of_update)
next
  case False
  then show ?thesis by (simp add: process_message_json_unchanged)
qed

lemma consume_json_Cons:
  "consume_json loads ((now, m) # rest) st =
     (fst (consume_json loads rest (fst (process_message_json loads now m st))),
      snd (process_message_json loads now m st)
      @ snd (consume_json loads rest (fst (process_message_json loads now m st))))"
  by (simp add: case_prod_beta)

lemma consume_json_count_mono:
  "count_of (author_counts st) k \<le> count_of (author_counts (fst (consume_json loads evs st))) k"
proof (induction evs arbitrary: st)
  case Nil
  then show ?case by simp
next
  case (Cons ev evs)
  obtain now m where ev: "ev = (now, m)" by (cases ev)
  have "count_of (author_counts st) k
          \<le> count_of (author_counts (fst (process_message_json loads now m st))) k"
    by (rule process_message_json_count_mono)
  also have "\<dots> \<le> count_of (author_counts (fst (consume_json loads evs (fst (process_message_json loads now m st))))) k"
    by (rule Cons.IH)
  finally show ?case unfolding ev consume_json_Cons by simp
qed

lemma process_message_json_fired_unhashable:
  assumes "loads m = Some (JObj d)" "key_of (dict_get d ''author'' (JStr ''unknown'')) = Inl x"
  shows "fired (snd (process_message_json loads now m st)) = []"
  using assms
  by (simp add: process_message_json_def Let_def fired_Cons fired_Nil)

lemma malformed_payload_json:
  "loads bad = None \<Longrightarrow>
     process_message_json loads now bad s
       = (s, [(DEBUG, Raw_message bad), (ERROR, Invalid_JSON_message bad)])"
  by (simp add: process_message_json_def)

section \<open>Message counts\<close>

text \<open>
  C9. An event of the chat consumer whose author is a string (the default
  \<^verbatim>\<open>"unknown"\<close> when the key is absent) raises the count of that author by exactly one
  and leaves every other count as it was. The volume alert fires on that event if and
  only if the count after the increment is at least \<open>MESSAGE_THRESHOLD\<close>, which is 100:
  on every event from the hundredth on, not only at the crossing. Starting from the empty
  store no count is ever negative.
\<close>

theorem C9_count_incremented_and_volume_alert:
  "(\<forall>loads now m st d a.
      loads m = Some (JObj d) \<and> dict_get d ''author'' (JStr ''unknown'') = JStr a \<longrightarrow>
        count_of (author_counts (fst (process_message_json loads now m st))) (KStr a)
          = count_of (author_counts st) (KStr a) + 1
        \<and> (\<forall>k. k \<noteq> KStr a \<longrightarrow>
              count_of (author_counts (fst (process_message_json loads now m st))) k
                = count_of (author_counts st) k)
        \<and> (VolumeThreshold \<in> set (fired (snd (process_message_json loads now m st)))
             \<longleftrightarrow> MESSAGE_THRESHOLD
                   \<le> count_of (author_counts (fst (process_message_json loads now m st))) (KStr a)))
   \<and> (\<forall>loads evs k. 0 \<le> count_of (author_counts (fst (consume_json loads evs empty_store))) k)
   \<and> MESSAGE_THRESHOLD = 100"
proof (intro conjI allI impI)
  fix loads :: "string \<Rightarrow> json option" and now :: real and m :: string and st :: store
    and d :: "(string \<times> json) list" and a :: string
  assume h: "loads m = Some (JObj d) \<and> dict_get d ''author'' (JStr ''unknown'') = JStr a"
  then have l: "loads m = Some (JObj d)"
    and k: "key_of (dict_get d ''author'' (JStr ''unknown'')) = Inr (KStr a)"
    by simp_all
  show "count_of (author_counts (fst (process_message_json loads now m st))) (KStr a)
          = count_of (author_counts st) (KStr a) + 1"
    by (simp add: process_message_json_state [where loads = loads and m = m, OF l k] count_of_update)
  show "VolumeThreshold \<in> set (fired (snd (process_message_json loads now m st)))
             \<longleftrightarrow> MESSAGE_THRESHOLD
                   \<le> count_of (author_counts (fst (process_message_json loads now m st))) (KStr a)"
    using h
    by (simp add: process_message_json_state [where loads = loads and m = m, OF l k] process_message_json_fired [where loads = loads and m = m, OF l k]
        count_of_update py_lower_def split: sum.splits)
  fix k'
  assume "k' \<noteq> KStr a"
  then show "count_of (author_counts (fst (process_message_json loads now m st))) k'
                = count_of (author_counts st) k'"
    by (simp add: process_message_json_state [where loads = loads and m = m, OF l k] count_of_update)
next
  fix loads :: "string \<Rightarrow> json option" and evs :: "(real \<times> string) list" and k :: key
  have "count_of (author_counts empty_store) k = 0"
    by (simp add: empty_store_def count_of_def)
  then show "0 \<le> count_of (author_counts (fst (consume_json loads evs empty_store))) k"
    using consume_json_count_mono [of empty_store k loads evs] by simp
next
  show "MESSAGE_THRESHOLD = 100" by (simp add: MESSAGE_THRESHOLD_def)
qed

text \<open>The hundredth message of an author.\<close>

theorem C9_count_witness:
  "map_of [(''m'', JObj [(''author'', JStr ''bob''), (''message'', JStr ''hi'')])] ''m''
     = Some (JObj [(''author'', JStr ''bob''), (''message'', JStr ''hi'')])
   \<and> dict_get [(''author'', JStr ''bob''), (''message'', JStr ''hi'')] ''author'' (JStr ''unknown'')
     = JStr ''bob''
   \<and> count_of (author_counts (fst (process_message_json
        (map_of [(''m'', JObj [(''author'', JStr ''bob''), (''message'', JStr ''hi'')])]) 1000 ''m''
        \<lparr>author_counts = [(KStr ''bob'', 99)], last_message_time = [(KStr ''bob'', 900)]\<rparr>)))
        (KStr ''bob'') = 100
   \<and> VolumeThreshold \<in> set (fired (snd (process_message_json
        (map_of [(''m'', JObj [(''author'', JStr ''bob''), (''message'', JStr ''hi'')])]) 1000 ''m''
        \<lparr>author_counts = [(KStr ''bob'', 99)], last_message_time = [(KStr ''bob'', 900)]\<rparr>)))"
  using C9_count_incremented_and_volume_alert
    [THEN conjunct1, rule_format,
      of "map_of [(''m'', JObj [(''author'', JStr ''bob''), (''message'', JStr ''hi'')])]" "''m''"
         "[(''author'', JStr ''bob''), (''message'', JStr ''hi'')]" "''bob''" 1000
         "\<lparr>author_counts = [(KStr ''bob'', 99)], last_message_time = [(KStr ''bob'', 900)]\<rparr>"]
  by (simp add: dict_get_def count_of_def MESSAGE_THRESHOLD_def)

section \<open>Frequent messages\<close>

text \<open>
  C7, as the code has it. The time of an event is the reading of the clock
  (\<^verbatim>\<open>time.time()\<close>) during the call that processes it; a timestamp in the payload is
  never read. For an event whose author can be a dict key, the frequent message alert
  fires if and only if that clock reading minus the author's last message time is at most
  10, where an author not seen before counts as last seen at time 0; the last message
  time is read before it is set to the clock reading. So with a clock past 10, as every
  real clock is, the alert fires if and only if a previous call for the author exists and
  lies at most 10 seconds back. Two payloads with the same author and message give the
  same store and the same alerts, whatever else they carry. With the clock past 10, a
  first message from \<^verbatim>\<open>"bob"\<close> gives no alert, a second one processed 3 seconds later
  gives the alert, and a second one processed 15 seconds later gives none.
\<close>

theorem C7_frequent_alert_by_processing_clock:
  "(\<forall>loads now m st d k.
      loads m = Some (JObj d) \<and> key_of (dict_get d ''author'' (JStr ''unknown'')) = Inr k \<longrightarrow>
        (FrequentMessages \<in> set (fired (snd (process_message_json loads now m st)))
           \<longleftrightarrow> now - (case map_of (last_message_time st) k of None \<Rightarrow> 0 | Some t \<Rightarrow> t) \<le> 10)
        \<and> map_of (last_message_time (fst (process_message_json loads now m st))) k = Some now)
   \<and> (\<forall>loads now m st d k.
      loads m = Some (JObj d) \<and> key_of (dict_get d ''author'' (JStr ''unknown'')) = Inr k
      \<and> 10 < now \<longrightarrow>
        (FrequentMessages \<in> set (fired (snd (process_message_json loads now m st)))
           \<longleftrightarrow> (\<exists>t. map_of (last_message_time st) k = Some t \<and> now - t \<le> 10)))
   \<and> (\<forall>loads now m m' st d d'.
      loads m = Some (JObj d) \<and> loads m' = Some (JObj d')
      \<and> dict_get d ''author'' (JStr ''unknown'') = dict_get d' ''author'' (JStr ''unknown'')
      \<and> dict_get d ''message'' (JStr []) = dict_get d' ''message'' (JStr []) \<longrightarrow>
        fst (process_message_json loads now m st) = fst (process_message_json loads now m' st)
        \<and> fired (snd (process_message_json loads now m st))
            = fired (snd (process_message_json loads now m' st)))
   \<and> (\<forall>loads m d t0.
      loads m = Some (JObj d) \<and> dict_get d ''author'' (JStr ''unknown'') = JStr ''bob''
      \<and> 10 < t0 \<longrightarrow>
        FrequentMessages \<notin> set (fired (snd (process_message_json loads t0 m empty_store)))
        \<and> FrequentMessages \<in> set (fired (snd (process_message_json loads (t0 + 3) m
                                      (fst (process_message_json loads t0 m empty_store)))))
        \<and> FrequentMessages \<notin> set (fired (snd (process_message_json loads (t0 + 15) m
                                      (fst (process_message_json loads t0 m empty_store))))))"
proof (intro conjI allI impI)
  fix loads :: "string \<Rightarrow> json option" and now :: real and m :: string and st :: store
    and d :: "(string \<times> json) list" and k :: key
  assume h: "loads m = Some (JObj d) \<and> key_of (dict_get d ''author'' (JStr ''unknown'')) = Inr k"
  then have l: "loads m = Some (JObj d)"
    and k: "key_of (dict_get d ''author'' (JStr ''unknown'')) = Inr k"
    by simp_all
  show "FrequentMessages \<in> set (fired (snd (process_message_json loads now m st)))
           \<longleftrightarrow> now - (case map_of (last_message_time st) k of None \<Rightarrow> 0 | Some t \<Rightarrow> t) \<le> 10"
    by (simp add: process_message_json_fired [where loads = loads and m = m, OF l k]
        FREQUENT_TIME_FRAME_def split: sum.splits)
  show "map_of (last_message_time (fst (process_message_json loads now m st))) k = Some now"
    by (simp add: process_message_json_state [where loads = loads and m = m, OF l k] update_conv')
next
  fix loads :: "string \<Rightarrow> json option" and now :: real and m :: string and st :: store
    and d :: "(string \<times> json) list" and k :: key
  assume h: "loads m = Some (JObj d) \<and> key_of (dict_get d ''author'' (JStr ''unknown'')) = Inr k
      \<and> 10 < now"
  then have l: "loads m = Some (JObj d)"
    and k: "key_of (dict_get d ''author'' (JStr ''unknown'')) = Inr k"
    by simp_all
  from h show "FrequentMessages \<in> set (fired (snd (process_message_json loads now m st)))
           \<longleftrightarrow> (\<exists>t. map_of (last_message_time st) k = Some t \<and> now - t \<le> 10)"
    by (cases "map_of (last_message_time st) k")
      (simp_all add: process_message_json_fired [where loads = loads and m = m, OF l k]
        FREQUENT_TIME_FRAME_def split: sum.splits)
next
  fix loads :: "string \<Rightarrow> json option" and now :: real and m m' :: string and st :: store
    and d d' :: "(string \<times> json) list"
  assume h: "loads m = Some (JObj d) \<and> loads m' = Some (JObj d')
      \<and> dict_get d ''author'' (JStr ''unknown'') = dict_get d' ''author'' (JStr ''unknown'')
      \<and> dict_get d ''message'' (JStr []) = dict_get d' ''message'' (JStr [])"
  then have l: "loads m = Some (JObj d)" and l': "loads m' = Some (JObj d')"
    and a: "dict_get d' ''author'' (JStr ''unknown'') = dict_get d ''author'' (JStr ''unknown'')"
    and c: "dict_get d' ''message'' (JStr []) = dict_get d ''message'' (JStr [])"
    by simp_all
  show "fst (process_message_json loads now m st) = fst (process_message_json loads now m' st)"
  proof (cases "key_of (dict_get d ''author'' (JStr ''unknown''))")
    case (Inl x)
    then show ?thesis
      using l l' a by (simp add: process_message_json_unchanged)
  next
    case (Inr k)
    then have k': "key_of (dict_get d' ''author'' (JStr ''unknown'')) = Inr k" using a by simp
    show ?thesis
      by (simp add: process_message_json_state [where loads = loads and m = m, OF l Inr]
          process_message_json_state [where loads = loads and m = m', OF l' k'])
  qed
  show "fired (snd (process_message_json loads now m st))
            = fired (snd (process_message_json loads now m' st))"
  proof (cases "key_of (dict_get d ''author'' (JStr ''unknown''))")
    case (Inl x)
    then have x': "key_of (dict_get d' ''author'' (JStr ''unknown'')) = Inl x" using a by simp
    show ?thesis
      by (simp add: process_message_json_fired_unhashable [where loads = loads and m = m, OF l Inl]
          process_message_json_fired_unhashable [where loads = loads and m = m', OF l' x'])
  next
    case (Inr k)
    then have k': "key_of (dict_get d' ''author'' (JStr ''unknown'')) = Inr k" using a by simp
    show ?thesis
      unfolding process_message_json_fired [where loads = loads and m = m, OF l Inr]
        process_message_json_fired [where loads = loads and m = m', OF l' k'] a c
      by (rule refl)
  qed
next
  fix loads :: "string \<Rightarrow> json option" and m :: string
    and d :: "(string \<times> json) list" and t0 :: real
  assume h: "loads m = Some (JObj d) \<and> dict_get d ''author'' (JStr ''unknown'') = JStr ''bob''
      \<and> 10 < t0"
  then have l: "loads m = Some (JObj d)"
    and k: "key_of (dict_get d ''author'' (JStr ''unknown'')) = Inr (KStr ''bob'')"
    by simp_all
  from h show "FrequentMessages \<notin> set (fired (snd (process_message_json loads t0 m empty_store)))"
    by (simp add: process_message_json_fired [where loads = loads and m = m, OF l k]
        FREQUENT_TIME_FRAME_def empty_store_def split: sum.splits)
  show "FrequentMessages \<in> set (fired (snd (process_message_json loads (t0 + 3) m
                                      (fst (process_message_json loads t0 m empty_store)))))"
    by (simp add: process_message_json_fired [where loads = loads and m = m, OF l k]
        process_message_json_state [where loads = loads and m = m, OF l k]
        FREQUENT_TIME_FRAME_def update_conv' split: sum.splits)
  show "FrequentMessages \<notin> set (fired (snd (process_message_json loads (t0 + 15) m
                                      (fst (process_message_json loads t0 m empty_store)))))"
    by (simp add: process_message_json_fired [where loads = loads and m = m, OF l k]
        process_message_json_state [where loads = loads and m = m, OF l k]
        FREQUENT_TIME_FRAME_def update_conv' split: sum.splits)
qed

text \<open>A second message processed three seconds after the first.\<close>

theorem C7_frequent_alert_witness:
  "map_of [(''m'', JObj [(''author'', JStr ''bob''), (''message'', JStr ''hi'')])] ''m''
     = Some (JObj [(''author'', JStr ''bob''), (''message'', JStr ''hi'')])
   \<and> key_of (dict_get [(''author'', JStr ''bob''), (''message'', JStr ''hi'')] ''author'' (JStr ''unknown''))
     = Inr (KStr ''bob'')
   \<and> FrequentMessages \<in> set (fired (snd (process_message_json
        (map_of [(''m'', JObj [(''author'', JStr ''bob''), (''message'', JStr ''hi'')])])
        1700000003 ''m''
        \<lparr>author_counts = [(KStr ''bob'', 1)], last_message_time = [(KStr ''bob'', 1700000000)]\<rparr>)))
   \<and> map_of (last_message_time (fst (process_message_json
        (map_of [(''m'', JObj [(''author'', JStr ''bob''), (''message'', JStr ''hi'')])])
        1700000003 ''m''
        \<lparr>author_counts = [(KStr ''bob'', 1)], last_message_time = [(KStr ''bob'', 1700000000)]\<rparr>)))
        (KStr ''bob'') = Some 1700000003"
  using C7_frequent_alert_by_processing_clock
    [THEN conjunct1, rule_format,
      of "map_of [(''m'', JObj [(''author'', JStr ''bob''), (''message'', JStr ''hi'')])]" "''m''"
         "[(''author'', JStr ''bob''), (''message'', JStr ''hi'')]" "KStr ''bob''" 1700000003
         "\<lparr>author_counts = [(KStr ''bob'', 1)], last_message_time = [(KStr ''bob'', 1700000000)]\<rparr>"]
  by (simp add: dict_get_def)

text \<open>
  The claim as stated fails. Two events from \<^verbatim>\<open>"bob"\<close> whose timestamps are 3 seconds
  apart, processed 15 seconds apart, give no alert; two events whose timestamps are 15
  seconds apart, processed 3 seconds apart, give the alert on the second.
\<close>

theorem C7_payload_timestamp_ignored_counterexample:
  "FrequentMessages \<notin> set (fired (snd (consume_json
      (map_of
        [(''m1'', JObj [(''author'', JStr ''bob''), (''message'', JStr ''hi''),
                        (''timestamp'', JNum 1700000000)]),
         (''m2'', JObj [(''author'', JStr ''bob''), (''message'', JStr ''hi''),
                        (''timestamp'', JNum 1700000003)])])
      [(1700000100, ''m1''), (1700000115, ''m2'')] empty_store)))
   \<and> FrequentMessages \<in> set (fired (snd (consume_json
      (map_of
        [(''m1'', JObj [(''author'', JStr ''bob''), (''message'', JStr ''hi''),
                        (''timestamp'', JNum 1700000000)]),
         (''m3'', JObj [(''author'', JStr ''bob''), (''message'', JStr ''hi''),
                        (''timestamp'', JNum 1700000015)])])
      [(1700000100, ''m1''), (1700000103, ''m3'')] empty_store)))"
  by (simp add: process_message_json_def dict_get_def empty_store_def count_of_def Let_def
      FREQUENT_TIME_FRAME_def MESSAGE_THRESHOLD_def py_lower_def lower_char_def
      fired_append fired_Cons fired_Nil)

section \<open>Malformed payloads\<close>


section \<open>Which payloads reach the state\<close>

text \<open>
  C2, as the code has it. The temperature consumer changes its state only for a payload
  that decodes to a dict in which \<^verbatim>\<open>temperature\<close> and \<^verbatim>\<open>timestamp\<close> are both present
  and not null; for every such payload it pushes the temperature onto the window,
  whatever the type of the two values. The chat consumer changes its state only for a
  payload that decodes to a dict whose author (\<^verbatim>\<open>"unknown"\<close> when the key is absent)
  can be a dict key; for every such payload it increments the count of that author and
  sets the author's last message time.
\<close>

theorem C2_state_update_only_for_present_fields:
  "(\<forall>e loads m ws st.
      fst (process_message_csv e loads m ws st) \<noteq> st \<longrightarrow>
        (\<exists>d. loads m = Some (JObj d)
             \<and> dict_get d ''temperature'' JNull \<noteq> JNull
             \<and> dict_get d ''timestamp'' JNull \<noteq> JNull))
   \<and> (\<forall>e loads m ws st d.
      loads m = Some (JObj d)
      \<and> dict_get d ''temperature'' JNull \<noteq> JNull
      \<and> dict_get d ''timestamp'' JNull \<noteq> JNull \<longrightarrow>
        fst (process_message_csv e loads m ws st)
          = st\<lparr>rolling_window := deque_append (rolling_window st) (dict_get d ''temperature'' JNull)\<rparr>)
   \<and> (\<forall>loads now m s.
      fst (process_message_json loads now m s) \<noteq> s \<longrightarrow>
        (\<exists>d k. loads m = Some (JObj d)
               \<and> key_of (dict_get d ''author'' (JStr ''unknown'')) = Inr k))
   \<and> (\<forall>loads now m s d k.
      loads m = Some (JObj d)
      \<and> key_of (dict_get d ''author'' (JStr ''unknown'')) = Inr k \<longrightarrow>
        fst (process_message_json loads now m s)
          = \<lparr>author_counts = AList.update k (count_of (author_counts s) k + 1) (author_counts s),
             last_message_time = AList.update k now (last_message_time s)\<rparr>)"
proof (intro conjI allI impI)
  fix e :: env and loads :: "string \<Rightarrow> json option" and m :: string and ws :: int and st :: objects
  assume c: "fst (process_message_csv e loads m ws st) \<noteq> st"
  have "reading_of loads m \<noteq> None"
    using c process_message_csv_rejected [of loads m e ws st] by blast
  then show "\<exists>d. loads m = Some (JObj d)
             \<and> dict_get d ''temperature'' JNull \<noteq> JNull
             \<and> dict_get d ''timestamp'' JNull \<noteq> JNull"
    by (auto simp: reading_of_def Let_def split: option.splits json.splits if_splits)
next
  fix e :: env and loads :: "string \<Rightarrow> json option" and m :: string and ws :: int and st :: objects
    and d :: "(string \<times> json) list"
  assume h: "loads m = Some (JObj d)
      \<and> dict_get d ''temperature'' JNull \<noteq> JNull
      \<and> dict_get d ''timestamp'' JNull \<noteq> JNull"
  then have r: "reading_of loads m = Some (dict_get d ''timestamp'' JNull, dict_get d ''temperature'' JNull)"
    by (simp add: reading_of_def Let_def)
  from h have l: "loads m = Some (JObj d)" by simp
  show "fst (process_message_csv e loads m ws st)
          = st\<lparr>rolling_window := deque_append (rolling_window st) (dict_get d ''temperature'' JNull)\<rparr>"
    by (simp add: process_message_csv_accepted [where loads = loads and m = m, OF r l])
next
  fix loads :: "string \<Rightarrow> json option" and now :: real and m :: string and s :: store
  assume c: "fst (process_message_json loads now m s) \<noteq> s"
  show "\<exists>d k. loads m = Some (JObj d)
               \<and> key_of (dict_get d ''author'' (JStr ''unknown'')) = Inr k"
    using c process_message_json_unchanged [of loads m now s] by blast
next
  fix loads :: "string \<Rightarrow> json option" and now :: real and m :: string and s :: store
    and d :: "(string \<times> json) list" and k :: key
  assume h: "loads m = Some (JObj d)
      \<and> key_of (dict_get d ''author'' (JStr ''unknown'')) = Inr k"
  then show "fst (process_message_json loads now m s)
          = \<lparr>author_counts = AList.update k (count_of (author_counts s) k + 1) (author_counts s),
             last_message_time = AList.update k now (last_message_time s)\<rparr>"
    by (simp add: process_message_json_state [where loads = loads and m = m])
qed

text \<open>A payload that changes the window has both keys.\<close>

theorem C2_state_update_witness:
  "fst (process_message_csv default_env
       (map_of [(''m'', JObj [(''timestamp'', JStr ''t1''), (''temperature'', JStr ''hot'')])])
       ''m'' 5 \<lparr>rolling_window = \<lparr>maxlen = 5, items = []\<rparr>, df = empty_frame\<rparr>)
     \<noteq> \<lparr>rolling_window = \<lparr>maxlen = 5, items = []\<rparr>, df = empty_frame\<rparr>
   \<and> (\<exists>d. map_of [(''m'', JObj [(''timestamp'', JStr ''t1''), (''temperature'', JStr ''hot'')])] ''m''
            = Some (JObj d)
          \<and> dict_get d ''temperature'' JNull \<noteq> JNull
          \<and> dict_get d ''timestamp'' JNull \<noteq> JNull)"
proof -
  let ?loads = "map_of [(''m'', JObj [(''timestamp'', JStr ''t1''), (''temperature'', JStr ''hot'')])]"
  let ?st = "\<lparr>rolling_window = \<lparr>maxlen = 5, items = []\<rparr>, df = empty_frame\<rparr>"
  have "rolling_window (fst (process_message_csv default_env ?loads ''m'' 5 ?st))
          = \<lparr>maxlen = 5, items = [JStr ''hot'']\<rparr>"
    by (simp add: process_message_csv_def py_get_def dict_get_def deque_append_def Let_def
        split: prod.splits sum.splits)
  then have c: "fst (process_message_csv default_env ?loads ''m'' 5 ?st) \<noteq> ?st"
    by auto
  show ?thesis
    using c C2_state_update_only_for_present_fields
      [THEN conjunct1, rule_format, of default_env ?loads "''m''" 5 ?st, OF c]
    by simp
qed

text \<open>
  The claim as stated fails: a temperature that is a string is pushed onto the window,
  and a chat payload without an author is counted for \<^verbatim>\<open>"unknown"\<close>.
\<close>

theorem C2_type_mismatch_accepted_counterexample:
  "rolling_window (fst (process_message_csv default_env
       (map_of [(''m'', JObj [(''timestamp'', JStr ''t1''), (''temperature'', JStr ''hot'')])])
       ''m'' 5 \<lparr>rolling_window = \<lparr>maxlen = 5, items = []\<rparr>, df = empty_frame\<rparr>))
     = \<lparr>maxlen = 5, items = [JStr ''hot'']\<rparr>
   \<and> author_counts (fst (process_message_json
       (map_of [(''m'', JObj [(''message'', JStr ''hello'')])]) 1000 ''m'' empty_store))
     = [(KStr ''unknown'', 1)]"
  by (simp add: process_message_csv_def py_get_def dict_get_def deque_append_def Let_def
      process_message_json_def empty_store_def count_of_def split: prod.splits sum.splits)

end
